theory Spec2Isabelle
  imports Main
begin

section \<open>Exceptions, time and the outside world\<close>

text \<open>
  The exceptions the modelled code can raise. \<open>ValueError\<close> keeps the message of the
  source; \<open>HTTPError\<close> keeps the status code of the response that
  \<open>raise_for_status\<close> rejected; \<open>TransportError\<close> stands for every other exception of
  the requests library (connection failure, timeout, transport retries exhausted).
  \<open>TokenAuthRefreshBadRequestException\<close> wraps the HTTP error it was raised from, and
  \<open>RetryError\<close> is what the retry decorator raises when it gives up.
\<close>

datatype exn =
    ValueError string
  | TypeError string
  | OverflowError
  | KeyError string
  | JSONDecodeError
  | HTTPError nat
  | TransportError
  | TokenAuthRefreshBadRequestException exn
  | RetryError exn

text \<open>
  Points in time (\<open>datetime.now(timezone.utc)\<close>) are microseconds on the UTC time line,
  a \<open>timedelta\<close> is a number of microseconds.
\<close>

definition timedelta_days :: "int \<Rightarrow> int" where
  "timedelta_days n = n * 86400000000"

definition timedelta_hours :: "int \<Rightarrow> int" where
  "timedelta_hours n = n * 3600000000"

text \<open>
  The two authentication requests of the client: the login
  (\<open>POST /token/auth_user\<close> with mail address and password in the JSON body) and the
  credential exchange (\<open>POST /token/auth_refresh?refreshtoken=...\<close>).
\<close>

datatype request = AuthUser string string | AuthRefresh string

text \<open>
  A response carries its status code and its body; the body is \<open>None\<close> when it is not
  JSON, otherwise the top-level object as an association list.
\<close>

record response =
  status_code :: nat
  json_body :: "(string \<times> string) list option"

text \<open>
  The environment answers for everything the client does not control: \<open>clock k\<close> is
  what the \<open>k\<close>-th call of \<open>datetime.now\<close> returns, and \<open>server k r\<close> is the outcome of
  the \<open>k\<close>-th POST when it sends request \<open>r\<close> (after the transport-level retries of the
  session): an exception of the transport or a response.
\<close>

record env =
  clock :: "nat \<Rightarrow> int"
  server :: "nat \<Rightarrow> request \<Rightarrow> exn + response"

text \<open>
  What the program does to the outside world is recorded: how often the clock was read,
  the POSTs sent so far in order, the sleeps of the retry decorator in seconds, and how
  often the decorated body of \<open>get_id_token\<close> was entered.
\<close>

record io =
  ticks :: nat
  posts :: "request list"
  sleeps :: "int list"
  attempts :: nat

text \<open>The credential fields of \<open>JSONClient\<close> (\<open>self._mail_address\<close> and so on).\<close>

record client =
  mail_address :: string
  password :: string
  refresh_token :: string
  refresh_token_expire :: int
  id_token :: string
  id_token_expire :: int

type_synonym state = "io \<times> client"

definition now :: "env \<Rightarrow> io \<Rightarrow> int \<times> io" where
  "now e w = (clock e (ticks w), w\<lparr>ticks := Suc (ticks w)\<rparr>)"

text \<open>
  \<open>_post\<close>: send the request, then \<open>raise_for_status\<close>, which raises \<open>HTTPError\<close> for
  the status codes 400 to 599.
\<close>

definition post :: "env \<Rightarrow> request \<Rightarrow> io \<Rightarrow> (exn + response) \<times> io" where
  "post e r w =
     (let w' = w\<lparr>posts := posts w @ [r]\<rparr> in
      case server e (length (posts w)) r of
        Inl x \<Rightarrow> (Inl x, w')
      | Inr resp \<Rightarrow>
          if 400 \<le> status_code resp \<and> status_code resp < 600
          then (Inl (HTTPError (status_code resp)), w')
          else (Inr resp, w'))"

text \<open>\<open>ret.json()[key]\<close>.\<close>

definition json_field :: "response \<Rightarrow> string \<Rightarrow> exn + string" where
  "json_field resp k =
     (case json_body resp of
        None \<Rightarrow> Inl JSONDecodeError
      | Some kvs \<Rightarrow> (case map_of kvs k of None \<Rightarrow> Inl (KeyError k) | Some v \<Rightarrow> Inr v))"

section \<open>Configuration and construction\<close>

text \<open>
  The sources of configuration: whether the process runs in Colab, the home directory,
  the TOML files that exist (path to parsed document, a document maps a table name to
  its table), and the environment variables.
\<close>

record sysenv =
  is_colab :: bool
  home :: string
  files :: "string \<rightharpoonup> (string \<rightharpoonup> (string \<rightharpoonup> string))"
  environ :: "string \<rightharpoonup> string"

definition read_config :: "sysenv \<Rightarrow> string \<Rightarrow> (string \<rightharpoonup> string)" where
  "read_config sys config_path =
     (case files sys config_path of
        None \<Rightarrow> Map.empty
      | Some ret \<Rightarrow>
          (case ret ''jquants-api-client'' of None \<Rightarrow> Map.empty | Some t \<Rightarrow> t))"

text \<open>\<open>d.get(k, default)\<close>.\<close>

definition dict_get :: "(string \<rightharpoonup> string) \<Rightarrow> string \<Rightarrow> string \<Rightarrow> string" where
  "dict_get d k dflt = (case d k of None \<Rightarrow> dflt | Some v \<Rightarrow> v)"

record config =
  cfg_mail_address :: string
  cfg_password :: string
  cfg_refresh_token :: string

definition load_config :: "sysenv \<Rightarrow> config" where
  "load_config sys =
     (let c0 = Map.empty;
          c1 = (if is_colab sys
                then c0 ++ read_config sys ''/content/drive/MyDrive/drive_ws/secret/jquants-api.toml''
                else c0);
          c2 = c1 ++ read_config sys (home sys @ ''/.jquants-api/jquants-api.toml'');
          c3 = c2 ++ read_config sys ''jquants-api.toml'';
          c4 = (case environ sys ''JQUANTS_API_CLIENT_CONFIG_FILE'' of
                  None \<Rightarrow> c3
                | Some env_config_path \<Rightarrow> c3 ++ read_config sys env_config_path)
      in \<lparr> cfg_mail_address =
             dict_get (environ sys) ''JQUANTS_API_MAIL_ADDRESS'' (dict_get c4 ''mail_address'' ''''),
           cfg_password =
             dict_get (environ sys) ''JQUANTS_API_PASSWORD'' (dict_get c4 ''password'' ''''),
           cfg_refresh_token =
             dict_get (environ sys) ''JQUANTS_API_REFRESH_TOKEN'' (dict_get c4 ''refresh_token'' '''') \<rparr>)"

text \<open>
  \<open>JSONClient.__init__\<close>. The arguments are \<open>None\<close> or a string; the fields are set
  before the two checks, which raise \<open>ValueError\<close>.
\<close>

definition init ::
  "sysenv \<Rightarrow> env \<Rightarrow> string option \<Rightarrow> string option \<Rightarrow> string option \<Rightarrow> io
     \<Rightarrow> (exn + client) \<times> io" where
  "init sys e refresh_token_arg mail_address_arg password_arg w =
     (let cfg = load_config sys;
          m = (case mail_address_arg of None \<Rightarrow> cfg_mail_address cfg | Some a \<Rightarrow> a);
          p = (case password_arg of None \<Rightarrow> cfg_password cfg | Some a \<Rightarrow> a);
          r = (case refresh_token_arg of None \<Rightarrow> cfg_refresh_token cfg | Some a \<Rightarrow> a);
          (t1, w1) = now e w;
          rexp = (if r \<noteq> '''' then t1 + timedelta_days 6 else t1);
          (t2, w2) = now e w1;
          c = \<lparr> mail_address = m, password = p, refresh_token = r,
                refresh_token_expire = rexp, id_token = '''', id_token_expire = t2 \<rparr>
      in if (m = '''' \<or> p = '''') \<and> r = ''''
         then (Inl (ValueError ''Either mail_address/password or refresh_token is required.''), w2)
         else if m \<noteq> '''' \<and> CHR ''@'' \<notin> set m
         then (Inl (ValueError ''mail_address must contain '@' charactor.''), w2)
         else (Inr c, w2))"

section \<open>The token manager\<close>

text \<open>\<open>JSONClient.get_refresh_token\<close>.\<close>

definition get_refresh_token ::
  "env \<Rightarrow> string option \<Rightarrow> string option \<Rightarrow> state \<Rightarrow> (exn + string) \<times> state" where
  "get_refresh_token e mail_address_arg password_arg s =
     (let (w, c) = s; (t, w1) = now e w in
      if refresh_token_expire c > t then (Inr (refresh_token c), (w1, c))
      else
        let m = (case mail_address_arg of None \<Rightarrow> mail_address c | Some a \<Rightarrow> a);
            p = (case password_arg of None \<Rightarrow> password c | Some a \<Rightarrow> a)
        in if m = '''' \<or> p = ''''
           then (Inl (ValueError ''mail_address/password are required''), (w1, c))
           else if CHR ''@'' \<notin> set m
           then (Inl (ValueError ''mail_address must contain '@' charactor.''), (w1, c))
           else
             (case post e (AuthUser m p) w1 of
                (Inl x, w2) \<Rightarrow> (Inl x, (w2, c))
              | (Inr ret, w2) \<Rightarrow>
                  (case json_field ret ''refreshToken'' of
                     Inl x \<Rightarrow> (Inl x, (w2, c))
                   | Inr tok \<Rightarrow>
                       let (t', w3) = now e w2
                       in (Inr tok, (w3, c\<lparr>refresh_token := tok,
                                            refresh_token_expire := t' + timedelta_days 6\<rparr>)))))"

text \<open>
  Lines 342 to 345 of \<open>get_id_token\<close>: the refresh token to exchange is the argument
  when one is given, otherwise the result of \<open>get_refresh_token()\<close>.
\<close>

definition refresh_token_for ::
  "env \<Rightarrow> string option \<Rightarrow> state \<Rightarrow> (exn + string) \<times> state" where
  "refresh_token_for e refresh_token_arg s =
     (case refresh_token_arg of
        Some r \<Rightarrow> (Inr r, s)
      | None \<Rightarrow> get_refresh_token e None None s)"

text \<open>
  The \<open>except HTTPError as e\<close> handler of \<open>get_id_token\<close> (lines 352 to 370), entered
  with the status code of the failed exchange.
\<close>

definition on_http_error ::
  "env \<Rightarrow> string option \<Rightarrow> nat \<Rightarrow> state \<Rightarrow> exn \<times> state" where
  "on_http_error e refresh_token_arg code s =
     (let (w, c) = s in
      if refresh_token_arg = None \<and> code = 400 \<and> mail_address c \<noteq> '''' \<and> password c \<noteq> ''''
      then
        let (t1, w1) = now e w; (t2, w2) = now e w1
        in (TokenAuthRefreshBadRequestException (HTTPError code),
            (w2, c\<lparr>refresh_token := '''', refresh_token_expire := t1,
                    id_token := '''', id_token_expire := t2\<rparr>))
      else (HTTPError code, s))"

text \<open>The body of \<open>get_id_token\<close>, as the retry decorator calls it.\<close>

definition get_id_token_body ::
  "env \<Rightarrow> string option \<Rightarrow> state \<Rightarrow> (exn + string) \<times> state" where
  "get_id_token_body e refresh_token_arg s =
     (let (w, c) = s; (t, w1) = now e w in
      if id_token_expire c > t then (Inr (id_token c), (w1, c))
      else
        (case refresh_token_for e refresh_token_arg (w1, c) of
           (Inl x, s1) \<Rightarrow> (Inl x, s1)
         | (Inr r, (w2, c2)) \<Rightarrow>
             (case post e (AuthRefresh r) w2 of
                (Inl (HTTPError code), w3) \<Rightarrow>
                  (let (x, s4) = on_http_error e refresh_token_arg code (w3, c2)
                   in (Inl x, s4))
              | (Inl x, w3) \<Rightarrow> (Inl x, (w3, c2))
              | (Inr ret, w3) \<Rightarrow>
                  (case json_field ret ''idToken'' of
                     Inl x \<Rightarrow> (Inl x, (w3, c2))
                   | Inr tok \<Rightarrow>
                       let (t', w4) = now e w3
                       in (Inr tok, (w4, c2\<lparr>id_token := tok,
                                             id_token_expire := t' + timedelta_hours 23\<rparr>))))))"

text \<open>
  The decorator \<open>@retry(retry=retry_if_exception_type(TokenAuthRefreshBadRequestException),
  stop=stop_after_attempt(3), wait=wait_exponential(multiplier=1, min=5, max=300))\<close>.
  The three strategies are those of the tenacity library: the retry predicate holds of
  an exception of the given class, the stop predicate holds once the number of the
  attempt just made has reached the bound, and the wait after attempt \<open>n\<close> is
  \<open>multiplier * 2 ^ (n - 1)\<close> seconds, at most \<open>max\<close> and at least \<open>min\<close>.
\<close>

fun retry_if_exception_type :: "exn \<Rightarrow> bool" where
  "retry_if_exception_type (TokenAuthRefreshBadRequestException _) = True"
| "retry_if_exception_type _ = False"

definition stop_after_attempt :: "nat \<Rightarrow> nat \<Rightarrow> bool" where
  "stop_after_attempt max_attempt_number attempt_number =
     (attempt_number \<ge> max_attempt_number)"

definition wait_exponential :: "int \<Rightarrow> int \<Rightarrow> int \<Rightarrow> nat \<Rightarrow> int" where
  "wait_exponential multiplier mn mx attempt_number =
     max (max 0 mn) (min (multiplier * 2 ^ (attempt_number - 1)) mx)"

definition sleep :: "int \<Rightarrow> state \<Rightarrow> state" where
  "sleep secs s = (let (w, c) = s in (w\<lparr>sleeps := sleeps w @ [secs]\<rparr>, c))"

definition enter :: "state \<Rightarrow> state" where
  "enter s = (let (w, c) = s in (w\<lparr>attempts := Suc (attempts w)\<rparr>, c))"

text \<open>
  The loop of the decorator from attempt number \<open>n\<close> on: call the body; a result or an
  exception the retry predicate rejects leaves the loop as it is; otherwise the loop
  stops with \<open>RetryError\<close> when the stop predicate holds, and sleeps and tries again
  when it does not.
\<close>

function get_id_token_from ::
  "env \<Rightarrow> string option \<Rightarrow> nat \<Rightarrow> state \<Rightarrow> (exn + string) \<times> state" where
  "get_id_token_from e refresh_token_arg n s =
     (case get_id_token_body e refresh_token_arg (enter s) of
        (Inr tok, s') \<Rightarrow> (Inr tok, s')
      | (Inl x, s') \<Rightarrow>
          if \<not> retry_if_exception_type x then (Inl x, s')
          else if stop_after_attempt 3 n then (Inl (RetryError x), s')
          else get_id_token_from e refresh_token_arg (Suc n)
                 (sleep (wait_exponential 1 5 300 n) s'))"
  by pat_completeness auto
termination
  by (relation "measure (\<lambda>(e, r, n, s). 3 - n)") (auto simp: stop_after_attempt_def)

declare get_id_token_from.simps [simp del]

text \<open>\<open>JSONClient.get_id_token\<close>: the decorated function; attempts are numbered from 1.\<close>

definition get_id_token :: "env \<Rightarrow> string option \<Rightarrow> state \<Rightarrow> (exn + string) \<times> state" where
  "get_id_token e refresh_token_arg s = get_id_token_from e refresh_token_arg 1 s"

section \<open>Concurrent callers of the token manager\<close>

text \<open>
  \<open>get_id_token\<close> takes no lock and \<open>JSONClient\<close> holds none; the workers of a range
  fetch call it from their own threads on the one client object. The body falls into
  two steps between which another thread can run: the check of the cached token
  (lines 339 and 340), which returns it when its expiry is after the time read, and
  the refresh (lines 342 to 374), reached when the check fails.
\<close>

definition id_token_check :: "env \<Rightarrow> state \<Rightarrow> string option \<times> state" where
  "id_token_check e s =
     (let (w, c) = s; (t, w1) = now e w in
      if id_token_expire c > t then (Some (id_token c), (w1, c)) else (None, (w1, c)))"

definition id_token_refresh ::
  "env \<Rightarrow> string option \<Rightarrow> state \<Rightarrow> (exn + string) \<times> state" where
  "id_token_refresh e refresh_token_arg s =
     (case refresh_token_for e refresh_token_arg s of
        (Inl x, s1) \<Rightarrow> (Inl x, s1)
      | (Inr r, (w2, c2)) \<Rightarrow>
          (case post e (AuthRefresh r) w2 of
             (Inl (HTTPError code), w3) \<Rightarrow>
               (let (x, s4) = on_http_error e refresh_token_arg code (w3, c2)
                in (Inl x, s4))
           | (Inl x, w3) \<Rightarrow> (Inl x, (w3, c2))
           | (Inr ret, w3) \<Rightarrow>
               (case json_field ret ''idToken'' of
                  Inl x \<Rightarrow> (Inl x, (w3, c2))
                | Inr tok \<Rightarrow>
                    let (t', w4) = now e w3
                    in (Inr tok, (w4, c2\<lparr>id_token := tok,
                                          id_token_expire := t' + timedelta_hours 23\<rparr>)))))"

text \<open>
  A thread that has called \<open>get_id_token\<close> is in attempt \<open>n\<close> of the retry decorator and
  about to check the cached token, or it is in attempt \<open>n\<close> past a failed check and about
  to refresh, or its call has ended with a result or an exception.
\<close>

datatype caller = Ready nat | Missed nat | Returned "exn + string"

text \<open>
  One step of one thread on the shared state. The decorator treats the outcome of the
  refresh as \<open>get_id_token_from\<close> does. A thread is never made to wait for another one:
  a step is possible in every state.
\<close>

fun caller_step :: "env \<Rightarrow> string option \<Rightarrow> caller \<Rightarrow> state \<Rightarrow> caller \<times> state" where
  "caller_step e refresh_token_arg (Ready n) s =
     (case id_token_check e (enter s) of
        (Some tok, s') \<Rightarrow> (Returned (Inr tok), s')
      | (None, s') \<Rightarrow> (Missed n, s'))"
| "caller_step e refresh_token_arg (Missed n) s =
     (case id_token_refresh e refresh_token_arg s of
        (Inr tok, s') \<Rightarrow> (Returned (Inr tok), s')
      | (Inl x, s') \<Rightarrow>
          if \<not> retry_if_exception_type x then (Returned (Inl x), s')
          else if stop_after_attempt 3 n then (Returned (Inl (RetryError x)), s')
          else (Ready (Suc n), sleep (wait_exponential 1 5 300 n) s'))"
| "caller_step e refresh_token_arg (Returned v) s = (Returned v, s)"

text \<open>
  The threads run interleaved: \<open>schedule\<close> lists, step by step, the number of the thread
  that runs next; a number that names no thread is passed over.
\<close>

definition run_callers ::
  "env \<Rightarrow> string option \<Rightarrow> nat list \<Rightarrow> caller list \<times> state \<Rightarrow> caller list \<times> state" where
  "run_callers e refresh_token_arg schedule cs =
     fold (\<lambda>i (ts, s).
             if i < length ts
             then (let (k, s') = caller_step e refresh_token_arg (ts ! i) s
                   in (ts[i := k], s'))
             else (ts, s))
          schedule cs"

section \<open>Calendar dates\<close>

text \<open>
  The proleptic Gregorian calendar of the standard library (\<open>datetime.py\<close>): a calendar
  day is counted by its ordinal, 0001-01-01 being day 1 and 9999-12-31 being day
  3652059, the largest a \<open>datetime\<close> can hold.
\<close>

definition MAXORDINAL :: int where
  "MAXORDINAL = 3652059"

definition is_leap :: "int \<Rightarrow> bool" where
  "is_leap year = (year mod 4 = 0 \<and> (year mod 100 \<noteq> 0 \<or> year mod 400 = 0))"

definition days_before_year :: "int \<Rightarrow> int" where
  "days_before_year year =
     (let y = year - 1 in y * 365 + y div 4 - y div 100 + y div 400)"

definition DAYS_IN_MONTH :: "int list" where
  "DAYS_IN_MONTH = [-1, 31, 28, 31, 30, 31, 30, 31, 31, 30, 31, 30, 31]"

definition DAYS_BEFORE_MONTH :: "int list" where
  "DAYS_BEFORE_MONTH = [-1, 0, 31, 59, 90, 120, 151, 181, 212, 243, 273, 304, 334]"

definition days_in_month :: "int \<Rightarrow> int \<Rightarrow> int" where
  "days_in_month year month =
     (if month = 2 \<and> is_leap year then 29 else DAYS_IN_MONTH ! nat month)"

definition days_before_month :: "int \<Rightarrow> int \<Rightarrow> int" where
  "days_before_month year month =
     DAYS_BEFORE_MONTH ! nat month + (if month > 2 \<and> is_leap year then 1 else 0)"

definition ymd2ord :: "int \<Rightarrow> int \<Rightarrow> int \<Rightarrow> int" where
  "ymd2ord year month day =
     days_before_year year + days_before_month year month + day"

definition ord2ymd :: "int \<Rightarrow> int \<times> int \<times> int" where
  "ord2ymd n0 =
     (let n = n0 - 1;
          n400 = n div 146097; n = n mod 146097;
          year = n400 * 400 + 1;
          n100 = n div 36524; n = n mod 36524;
          n4 = n div 1461; n = n mod 1461;
          n1 = n div 365; n = n mod 365;
          year = year + n100 * 100 + n4 * 4 + n1
      in if n1 = 4 \<or> n100 = 4 then (year - 1, 12, 31)
         else
           let leapyear = (n1 = 3 \<and> (n4 \<noteq> 24 \<or> n100 = 3));
               month = (n + 50) div 32;
               preceding = DAYS_BEFORE_MONTH ! nat month
                            + (if month > 2 \<and> leapyear then 1 else 0)
           in if preceding > n
              then
                let month = month - 1;
                    preceding = preceding - (DAYS_IN_MONTH ! nat month
                                  + (if month = 2 \<and> leapyear then 1 else 0))
                in (year, month, n - preceding + 1)
              else (year, month, n - preceding + 1))"

text \<open>
  A \<open>datetime\<close>: the ordinal of its calendar day, the time of day in microseconds since
  midnight, and the offset from UTC in microseconds when it is aware (\<open>None\<close> when it is
  naive). Time zones are fixed offsets. Python only builds values that satisfy
  \<open>valid_datetime\<close>.
\<close>

record datetime =
  ordinal :: int
  tod :: int
  utcoffset :: "int option"

definition valid_datetime :: "datetime \<Rightarrow> bool" where
  "valid_datetime d =
     (1 \<le> ordinal d \<and> ordinal d \<le> MAXORDINAL \<and> 0 \<le> tod d \<and> tod d < 86400000000)"

definition check_date_fields :: "int \<Rightarrow> int \<Rightarrow> int \<Rightarrow> exn + unit" where
  "check_date_fields year month day =
     (if \<not> (1 \<le> year \<and> year \<le> 9999) then Inl (ValueError ''year is out of range'')
      else if \<not> (1 \<le> month \<and> month \<le> 12) then Inl (ValueError ''month must be in 1..12'')
      else if \<not> (1 \<le> day \<and> day \<le> days_in_month year month)
      then Inl (ValueError ''day is out of range for month'')
      else Inr ())"

text \<open>\<open>datetime(year, month, day, hour, minute, second, tzinfo=...)\<close>, fields unchecked.\<close>

definition mk_datetime ::
  "int \<Rightarrow> int \<Rightarrow> int \<Rightarrow> int \<Rightarrow> int \<Rightarrow> int \<Rightarrow> int option \<Rightarrow> datetime" where
  "mk_datetime year month day hour minute second tz =
     \<lparr> ordinal = ymd2ord year month day,
       tod = ((hour * 60 + minute) * 60 + second) * 1000000,
       utcoffset = tz \<rparr>"

text \<open>
  Comparison \<open>a <= b\<close>: two naive values compare by their fields, two aware values by
  their points on the UTC time line, and a naive with an aware value raises \<open>TypeError\<close>.
\<close>

definition wall :: "datetime \<Rightarrow> int" where
  "wall d = ordinal d * 86400000000 + tod d"

definition datetime_le :: "datetime \<Rightarrow> datetime \<Rightarrow> exn + bool" where
  "datetime_le a b =
     (case (utcoffset a, utcoffset b) of
        (None, None) \<Rightarrow> Inr (wall a \<le> wall b)
      | (Some x, Some y) \<Rightarrow> Inr (wall a - x \<le> wall b - y)
      | _ \<Rightarrow> Inl (TypeError ''can't compare offset-naive and offset-aware datetimes''))"



text \<open>
  \<open>d + timedelta(days=n)\<close>: a \<open>timedelta\<close> holds at most 999999999 days, and the sum must
  be a day between 0001-01-01 and 9999-12-31; otherwise \<open>OverflowError\<close>.
\<close>

definition add_days :: "datetime \<Rightarrow> int \<Rightarrow> exn + datetime" where
  "add_days d n =
     (if \<bar>n\<bar> > 999999999 then Inl OverflowError
      else if 0 < ordinal d + n \<and> ordinal d + n \<le> MAXORDINAL
      then Inr (d\<lparr>ordinal := ordinal d + n\<rparr>)
      else Inl OverflowError)"

subsection \<open>Decimal digits\<close>

definition is_digit :: "char \<Rightarrow> bool" where
  "is_digit c = (c \<in> set ''0123456789'')"

definition digit_val :: "char \<Rightarrow> int" where
  "digit_val c = int (of_char c) - 48"

definition digit_char :: "int \<Rightarrow> char" where
  "digit_char k = char_of (48 + nat k)"

definition pad2 :: "int \<Rightarrow> string" where
  "pad2 n = [digit_char (n div 10 mod 10), digit_char (n mod 10)]"

definition pad4 :: "int \<Rightarrow> string" where
  "pad4 n = [digit_char (n div 1000 mod 10), digit_char (n div 100 mod 10),
             digit_char (n div 10 mod 10), digit_char (n mod 10)]"

text \<open>
  \<open>d.strftime("%Y%m%d")\<close>, the key under which a day is fetched. CPython hands the
  format to \<open>strftime\<close> of the C library; that of glibc writes the year without
  leading zeros, so that a year below 1000 has fewer than four digits (the first of
  January of the year 5 gives \<open>50101\<close>), and month and day with two digits each.
\<close>

definition strftime_Ymd :: "datetime \<Rightarrow> string" where
  "strftime_Ymd d =
     (let (y, m, dd) = ord2ymd (ordinal d)
      in dropWhile (\<lambda>c. c = CHR ''0'') (pad4 y) @ pad2 m @ pad2 dd)"

subsection \<open>Parsing\<close>

text \<open>
  \<open>datetime.strptime\<close> turns the format into a regular expression and takes the first
  match at the start of the string (\<open>re.match\<close>). Each directive is a group of
  alternatives tried in order: \<open>%Y\<close> is \<open>\d\d\d\d\<close>, \<open>%m\<close> is \<open>1[0-2]|0[1-9]|[1-9]\<close>
  and \<open>%d\<close> is \<open>3[0-1]|[1-2]\d|0[1-9]|[1-9]| [1-9]\<close>. A group is modelled by the list of
  its matches in that order, each with the rest of the string, so that the first element
  of the list of all matches of the whole expression is the match \<open>re.match\<close> finds.
  Characters are ASCII.
\<close>

definition alt1 :: "(char \<Rightarrow> bool) \<Rightarrow> (char \<Rightarrow> int) \<Rightarrow> string \<Rightarrow> (int \<times> string) list" where
  "alt1 p v s = (case s of a # rest \<Rightarrow> if p a then [(v a, rest)] else [] | _ \<Rightarrow> [])"

definition alt2 ::
  "(char \<Rightarrow> char \<Rightarrow> bool) \<Rightarrow> (char \<Rightarrow> char \<Rightarrow> int) \<Rightarrow> string \<Rightarrow> (int \<times> string) list" where
  "alt2 p v s = (case s of a # b # rest \<Rightarrow> if p a b then [(v a b, rest)] else [] | _ \<Rightarrow> [])"

definition re_Y :: "string \<Rightarrow> (int \<times> string) list" where
  "re_Y s =
     (case s of
        a # b # c # d # rest \<Rightarrow>
          if is_digit a \<and> is_digit b \<and> is_digit c \<and> is_digit d
          then [(1000 * digit_val a + 100 * digit_val b + 10 * digit_val c + digit_val d, rest)]
          else []
      | _ \<Rightarrow> [])"

definition re_m :: "string \<Rightarrow> (int \<times> string) list" where
  "re_m s =
     alt2 (\<lambda>a b. a = CHR ''1'' \<and> b \<in> set ''012'') (\<lambda>a b. 10 + digit_val b) s
     @ alt2 (\<lambda>a b. a = CHR ''0'' \<and> b \<in> set ''123456789'') (\<lambda>a b. digit_val b) s
     @ alt1 (\<lambda>a. a \<in> set ''123456789'') digit_val s"

definition re_d :: "string \<Rightarrow> (int \<times> string) list" where
  "re_d s =
     alt2 (\<lambda>a b. a = CHR ''3'' \<and> b \<in> set ''01'') (\<lambda>a b. 30 + digit_val b) s
     @ alt2 (\<lambda>a b. a \<in> set ''12'' \<and> is_digit b) (\<lambda>a b. 10 * digit_val a + digit_val b) s
     @ alt2 (\<lambda>a b. a = CHR ''0'' \<and> b \<in> set ''123456789'') (\<lambda>a b. digit_val b) s
     @ alt1 (\<lambda>a. a \<in> set ''123456789'') digit_val s
     @ alt2 (\<lambda>a b. a = CHR '' '' \<and> b \<in> set ''123456789'') (\<lambda>a b. digit_val b) s"

definition re_lit :: "char \<Rightarrow> string \<Rightarrow> string list" where
  "re_lit c s = (case s of a # rest \<Rightarrow> if a = c then [rest] else [] | _ \<Rightarrow> [])"

text \<open>All matches of \<open>%Y%m%d\<close> and of \<open>%Y-%m-%d\<close> at the start of a string, in order.\<close>

definition matches_compact :: "string \<Rightarrow> (int \<times> int \<times> int \<times> string) list" where
  "matches_compact s =
     [(y, m, d, r3). (y, r1) \<leftarrow> re_Y s, (m, r2) \<leftarrow> re_m r1, (d, r3) \<leftarrow> re_d r2]"

definition matches_hyphen :: "string \<Rightarrow> (int \<times> int \<times> int \<times> string) list" where
  "matches_hyphen s =
     [(y, m, d, r5). (y, r1) \<leftarrow> re_Y s, r2 \<leftarrow> re_lit CHR ''-'' r1, (m, r3) \<leftarrow> re_m r2,
                     r4 \<leftarrow> re_lit CHR ''-'' r3, (d, r5) \<leftarrow> re_d r4]"

text \<open>
  The rest of \<open>strptime\<close>: no match and unconverted data after the match raise
  \<open>ValueError\<close>, and so does a day that does not exist; the result is the naive
  \<open>datetime\<close> at midnight. Messages of the standard library are cut to their fixed part.
\<close>

definition strptime_found :: "(int \<times> int \<times> int \<times> string) list \<Rightarrow> exn + datetime" where
  "strptime_found found =
     (case found of
        [] \<Rightarrow> Inl (ValueError ''time data does not match format'')
      | (y, m, d, rest) # _ \<Rightarrow>
          if rest \<noteq> [] then Inl (ValueError ''unconverted data remains'')
          else (case check_date_fields y m d of
                  Inl x \<Rightarrow> Inl x
                | Inr _ \<Rightarrow> Inr (mk_datetime y m d 0 0 0 None)))"

text \<open>\<open>datetime.strptime(s, "%Y%m%d")\<close> and \<open>datetime.strptime(s, "%Y-%m-%d")\<close>.\<close>

definition strptime_compact :: "string \<Rightarrow> exn + datetime" where
  "strptime_compact s = strptime_found (matches_compact s)"

definition strptime_hyphen :: "string \<Rightarrow> exn + datetime" where
  "strptime_hyphen s = strptime_found (matches_hyphen s)"

section \<open>Date ranges\<close>

text \<open>
  The values \<open>date_range\<close> can be given: a \<open>str\<close>, a \<open>datetime\<close>, an instance of a
  proper subclass of either (a pandas \<open>Timestamp\<close> is an instance of a subclass of
  \<open>datetime\<close>), or a value of any other type.
\<close>

datatype pyobj =
    Str string
  | Datetime datetime
  | StrSubclass string
  | DatetimeSubclass datetime
  | Other

text \<open>
  Lines 46 to 52 and 54 to 60 of \<open>date_range\<close>: \<open>type(x) is str\<close> and
  \<open>type(x) is not datetime\<close> test the exact type.
\<close>

definition to_datetime :: "string \<Rightarrow> pyobj \<Rightarrow> exn + datetime" where
  "to_datetime name x =
     (case x of
        Str s \<Rightarrow> if CHR ''-'' \<in> set s then strptime_hyphen s else strptime_compact s
      | Datetime d \<Rightarrow> Inr d
      | _ \<Rightarrow> Inl (TypeError (name @ '' must be a datetime object or a string.'')))"

text \<open>
  The loop of the generator (lines 62 to 70), run until the generator is exhausted:
  the values it yields, in order, and the exception that ended it (\<open>None\<close> when the
  loop condition became false). The loop need not end; then the result is \<open>None\<close>.
\<close>

partial_function (option) date_range_loop ::
  "int \<Rightarrow> datetime \<Rightarrow> datetime \<Rightarrow> (datetime list \<times> exn option) option" where
  "date_range_loop step_days current_date end_date =
     (case datetime_le current_date end_date of
        Inl x \<Rightarrow> Some ([], Some x)
      | Inr b \<Rightarrow>
          if \<not> b then Some ([], None)
          else
            (case add_days current_date step_days of
               Inl x \<Rightarrow> Some ([current_date], Some x)
             | Inr next_date \<Rightarrow>
                 Option.bind (date_range_loop step_days next_date end_date)
                   (\<lambda>(ys, r). Some (current_date # ys, r))))"

declare date_range_loop.simps [code]

definition date_range :: "pyobj \<Rightarrow> pyobj \<Rightarrow> int \<Rightarrow> (datetime list \<times> exn option) option" where
  "date_range start_date end_date step_days =
     (case to_datetime ''start_date'' start_date of
        Inl x \<Rightarrow> Some ([], Some x)
      | Inr s \<Rightarrow>
          (case to_datetime ''end_date'' end_date of
             Inl x \<Rightarrow> Some ([], Some x)
           | Inr e \<Rightarrow> date_range_loop step_days s e))"


section \<open>Representations of a calendar day\<close>




text \<open>The naive \<open>datetime\<close> at midnight of a day.\<close>

definition midnight :: "int \<Rightarrow> int \<Rightarrow> int \<Rightarrow> datetime" where
  "midnight y m d = mk_datetime y m d 0 0 0 None"



text \<open>The values whose type is exactly \<open>str\<close> or exactly \<open>datetime\<close>.\<close>

fun exact_str_or_datetime :: "pyobj \<Rightarrow> bool" where
  "exact_str_or_datetime (Str s) = True"
| "exact_str_or_datetime (Datetime d) = True"
| "exact_str_or_datetime (StrSubclass s) = False"
| "exact_str_or_datetime (DatetimeSubclass d) = False"
| "exact_str_or_datetime Other = False"

section \<open>Range fetch\<close>

text \<open>
  \<open>Client.get_price_range\<close> of \<open>client.py\<close> submits one future for each date to a
  \<open>ThreadPoolExecutor\<close> and reads the results in the order \<open>as_completed\<close> hands the
  futures out. A future is its position in the list of submitted futures together with
  the key it fetches. The loop below takes the futures in the order in which they
  finish; it returns the data frames collected, or the exception of the first future
  whose \<open>result()\<close> raised, together with the futures that have finished by then and
  those that have not.
\<close>

type_synonym future = "nat \<times> string"

fun as_completed_loop ::
  "(string \<Rightarrow> exn + 'df) \<Rightarrow> future list \<Rightarrow> future list \<Rightarrow> 'df list
     \<Rightarrow> (exn + 'df list) \<times> future list \<times> future list" where
  "as_completed_loop fetch [] finished buff = (Inr buff, finished, [])"
| "as_completed_loop fetch (f # rest) finished buff =
     (case fetch (snd f) of
        Inl x \<Rightarrow> (Inl x, finished @ [f], rest)
      | Inr df \<Rightarrow> as_completed_loop fetch rest (finished @ [f]) (buff @ [df]))"

text \<open>
  Leaving the \<open>with\<close> block, normally or by an exception, calls
  \<open>executor.shutdown(wait=True)\<close>, which returns when every submitted future has
  finished: those still running or waiting are left to finish, none is cancelled.
\<close>

definition shutdown_wait :: "future list \<Rightarrow> future list \<Rightarrow> future list" where
  "shutdown_wait finished unfinished = finished @ unfinished"

text \<open>
  \<open>Client.get_price_range\<close>. \<open>dates\<close> is the result of
  \<open>pd.date_range(start_dt, end_dt, freq="D")\<close>; \<open>get_prices_daily_quotes k\<close> is the
  outcome of \<open>self.get_prices_daily_quotes(date_yyyymmdd=k)\<close> in a worker, a data
  frame being a list of rows; \<open>schedule\<close> puts the submitted futures in the order in
  which they finish; \<open>sort_values\<close> sorts by code and date. \<open>pd.concat\<close> of no frame at
  all raises \<open>ValueError\<close>. The result comes with the futures that have finished when
  the call returns or raises. What a worker does inside \<open>get_prices_daily_quotes\<close> is
  not unfolded: its outcome is taken as a function of the key, and the calls of
  \<open>get_id_token\<close> that the workers make for their request headers leave no trace in
  the state returned, which is the state after the call of \<open>get_id_token\<close> that
  precedes the submissions. The interleaving of such calls is the subject of
  \<open>run_callers\<close>.
\<close>

definition get_price_range ::
  "env \<Rightarrow> (string \<Rightarrow> exn + 'row list) \<Rightarrow> (future list \<Rightarrow> future list)
     \<Rightarrow> ('row list \<Rightarrow> 'row list) \<Rightarrow> datetime list \<Rightarrow> state
     \<Rightarrow> (exn + 'row list) \<times> future list \<times> state" where
  "get_price_range e get_prices_daily_quotes schedule sort_values dates s =
     (case get_id_token e None s of
        (Inl x, s1) \<Rightarrow> (Inl x, [], s1)
      | (Inr _, s1) \<Rightarrow>
          (let futures = enumerate 0 (map strftime_Ymd dates);
               (r, finished, unfinished) =
                  as_completed_loop get_prices_daily_quotes (schedule futures) [] [];
               settled = shutdown_wait finished unfinished
           in (case r of
                 Inl x \<Rightarrow> (Inl x, settled, s1)
               | Inr buff \<Rightarrow>
                   if buff = [] then (Inl (ValueError ''No objects to concatenate''), settled, s1)
                   else (Inr (sort_values (concat buff)), settled, s1))))"

section \<open>Example inputs\<close>

text \<open>
  A client with mail address and password and no tokens, a clock that advances one
  second with every reading, and a server that accepts every login and answers every
  credential exchange with status 400.
\<close>

definition example_io :: io where
  "example_io = \<lparr> ticks = 0, posts = [], sleeps = [], attempts = 0 \<rparr>"

definition example_client :: client where
  "example_client =
     \<lparr> mail_address = ''a@b'', password = ''pw'', refresh_token = [],
       refresh_token_expire = 0, id_token = [], id_token_expire = 0 \<rparr>"

definition example_clock :: "nat \<Rightarrow> int" where
  "example_clock k = int k * 1000000"

definition rejecting_server :: "nat \<Rightarrow> request \<Rightarrow> exn + response" where
  "rejecting_server k r =
     (case r of
        AuthUser m p \<Rightarrow> Inr \<lparr> status_code = 200, json_body = Some [(''refreshToken'', ''R'')] \<rparr>
      | AuthRefresh t \<Rightarrow> Inr \<lparr> status_code = 400, json_body = Some [] \<rparr>)"

definition rejecting_env :: env where
  "rejecting_env = \<lparr> clock = example_clock, server = rejecting_server \<rparr>"

text \<open>A server that accepts logins and exchanges.\<close>

definition accepting_server :: "nat \<Rightarrow> request \<Rightarrow> exn + response" where
  "accepting_server k r =
     (case r of
        AuthUser m p \<Rightarrow> Inr \<lparr> status_code = 200, json_body = Some [(''refreshToken'', ''R'')] \<rparr>
      | AuthRefresh t \<Rightarrow> Inr \<lparr> status_code = 200, json_body = Some [(''idToken'', ''I'')] \<rparr>)"

definition accepting_env :: env where
  "accepting_env = \<lparr> clock = example_clock, server = accepting_server \<rparr>"

text \<open>A machine without configuration files and environment variables.\<close>

definition bare_sysenv :: sysenv where
  "bare_sysenv = \<lparr> is_colab = False, home = ''/root'', files = Map.empty, environ = Map.empty \<rparr>"

text \<open>
  A machine whose configuration file in the current directory supplies a refresh token
  and nothing else.
\<close>

definition configured_sysenv :: sysenv where
  "configured_sysenv =
     \<lparr> is_colab = False, home = ''/root'',
       files = [''jquants-api.toml'' \<mapsto>
                  [''jquants-api-client'' \<mapsto> [''refresh_token'' \<mapsto> ''cfg'']]],
       environ = Map.empty \<rparr>"

text \<open>
  Five dates across a leap day, and a fetch that fails for the leap day with status 500
  and returns one row, the key itself, for every other day.
\<close>

definition example_dates :: "datetime list" where
  "example_dates = [midnight 2020 2 27, midnight 2020 2 28, midnight 2020 2 29,
                    midnight 2020 3 1, midnight 2020 3 2]"

definition example_fetch :: "string \<Rightarrow> exn + string list" where
  "example_fetch k = (if k = ''20200229'' then Inl (HTTPError 500) else Inr [k])"

section \<open>Properties\<close>

subsection \<open>Helper facts about the token manager\<close>

lemma get_refresh_token_keeps:
  assumes "get_refresh_token e ma pa (w, c) = (res, (w', c'))"
  shows "id_token c' = id_token c \<and> id_token_expire c' = id_token_expire c
        \<and> mail_address c' = mail_address c \<and> password c' = password c
        \<and> sleeps w' = sleeps w \<and> attempts w' = attempts w"
  using assms
  by (auto simp: get_refresh_token_def now_def post_def Let_def
      split: if_splits sum.splits prod.splits option.splits)

lemma refresh_token_for_keeps:
  assumes "refresh_token_for e r (w, c) = (res, (w', c'))"
  shows "id_token c' = id_token c \<and> id_token_expire c' = id_token_expire c
        \<and> mail_address c' = mail_address c \<and> password c' = password c
        \<and> sleeps w' = sleeps w \<and> attempts w' = attempts w"
proof (cases r)
  case None
  with assms show ?thesis
    using get_refresh_token_keeps [of e None None w c res w' c']
    by (simp add: refresh_token_for_def)
next
  case (Some a)
  with assms show ?thesis by (simp add: refresh_token_for_def)
qed

lemma post_keeps:
  "post e q w = (res, w') \<Longrightarrow>
     ticks w' = ticks w \<and> sleeps w' = sleeps w \<and> attempts w' = attempts w
     \<and> posts w' = posts w @ [q]"
  by (auto simp: post_def Let_def split: sum.splits if_splits)

lemma refresh_login:
  assumes "\<not> refresh_token_expire c > clock e (ticks w)"
    and "get_refresh_token e ma pa (w, c) = (Inr tok, (w', c'))"
  shows "refresh_token c' = tok \<and> 0 < ticks w'
        \<and> refresh_token_expire c' = clock e (ticks w' - 1) + timedelta_days 6"
  using assms
  by (auto simp: get_refresh_token_def now_def post_def Let_def
      split: if_splits sum.splits prod.splits)

lemma body_exchange_ok:
  assumes "\<not> id_token_expire c > clock e (ticks w)"
    and "get_id_token_body e r (w, c) = (Inr tok, (w', c'))"
  shows "id_token c' = tok \<and> 0 < ticks w'
        \<and> id_token_expire c' = clock e (ticks w' - 1) + timedelta_hours 23"
proof -
  obtain res1 w1 c1 where
    rf: "refresh_token_for e r (w\<lparr>ticks := Suc (ticks w)\<rparr>, c) = (res1, (w1, c1))"
    by (metis surj_pair)
  show ?thesis
  proof (cases res1)
    case (Inl x)
    with assms rf show ?thesis by (simp add: get_id_token_body_def now_def)
  next
    case rt: (Inr tk)
    obtain res2 w2 where p: "post e (AuthRefresh tk) w1 = (res2, w2)"
      by (metis surj_pair)
    show ?thesis
    proof (cases res2)
      case (Inl x)
      with assms rf rt p show ?thesis
        by (cases x) (auto simp: get_id_token_body_def now_def on_http_error_def Let_def
            split: prod.splits if_splits)
    next
      case (Inr ret)
      with assms rf rt p show ?thesis
        by (auto simp: get_id_token_body_def now_def Let_def split: sum.splits)
    qed
  qed
qed

lemma init_expiry:
  assumes "init sys e ra ma pa w = (Inr c, w')"
  shows "refresh_token c =
           (case ra of None \<Rightarrow> cfg_refresh_token (load_config sys) | Some a \<Rightarrow> a)
        \<and> refresh_token_expire c =
            (if refresh_token c \<noteq> [] then clock e (ticks w) + timedelta_days 6
             else clock e (ticks w))"
  using assms
  by (auto simp: init_def now_def Let_def split: if_splits)

lemma load_config_bare:
  "load_config bare_sysenv =
     \<lparr>cfg_mail_address = [], cfg_password = [], cfg_refresh_token = []\<rparr>"
  by (simp add: load_config_def bare_sysenv_def read_config_def dict_get_def)

lemma example_body_run:
  "get_id_token_body accepting_env None (example_io, example_client) =
     (Inr ''I'',
      (\<lparr>ticks = 4, posts = [AuthUser ''a@b'' ''pw'', AuthRefresh ''R''],
          sleeps = [], attempts = 0\<rparr>,
       \<lparr>mail_address = ''a@b'', password = ''pw'', refresh_token = ''R'',
          refresh_token_expire = 518402000000, id_token = ''I'',
          id_token_expire = 82803000000\<rparr>))"
  by code_simp

lemma example_login_run:
  "get_refresh_token accepting_env None None (example_io, example_client) =
     (Inr ''R'',
      (\<lparr>ticks = 2, posts = [AuthUser ''a@b'' ''pw''], sleeps = [], attempts = 0\<rparr>,
       \<lparr>mail_address = ''a@b'', password = ''pw'', refresh_token = ''R'',
          refresh_token_expire = 518401000000, id_token = [], id_token_expire = 0\<rparr>))"
  by code_simp

lemma example_init_run:
  "init bare_sysenv accepting_env (Some ''token'') None None example_io =
     (Inr \<lparr>mail_address = [], password = [], refresh_token = ''token'',
            refresh_token_expire = 518400000000, id_token = [],
            id_token_expire = 1000000\<rparr>,
      \<lparr>ticks = 2, posts = [], sleeps = [], attempts = 0\<rparr>)"
  by code_simp

subsection \<open>Cached access token\<close>

text \<open>
  Claim C2. When the expiry of the cached access token lies strictly after the time
  read at the start of \<open>get_id_token\<close>, the call returns the cached token string. The
  client's credential fields are all unchanged, nothing is posted (neither a login nor
  an exchange) and nothing is slept: the only traces of the call are one reading of the
  clock and one entry of the decorated body.
\<close>

theorem get_id_token_cached:
  assumes "id_token_expire c > clock e (ticks w)"
  shows "get_id_token e r (w, c) =
           (Inr (id_token c),
            (w\<lparr>ticks := Suc (ticks w), attempts := Suc (attempts w)\<rparr>, c))
         \<and> posts (fst (snd (get_id_token e r (w, c)))) = posts w
         \<and> sleeps (fst (snd (get_id_token e r (w, c)))) = sleeps w"
  using assms
  by (simp add: get_id_token_def get_id_token_from.simps get_id_token_body_def
      enter_def now_def)

theorem get_id_token_cached_witness:
  "clock accepting_env (ticks example_io)
     < id_token_expire (example_client\<lparr>id_token := ''I'', id_token_expire := 5\<rparr>)
   \<and> get_id_token accepting_env None
        (example_io, example_client\<lparr>id_token := ''I'', id_token_expire := 5\<rparr>) =
       (Inr ''I'', (example_io\<lparr>ticks := 1, attempts := 1\<rparr>,
                    example_client\<lparr>id_token := ''I'', id_token_expire := 5\<rparr>))"
  using get_id_token_cached [of accepting_env example_io
          "example_client\<lparr>id_token := ''I'', id_token_expire := 5\<rparr>" None]
  by (simp add: accepting_env_def example_clock_def example_io_def example_client_def)

subsection \<open>Construction\<close>

text \<open>
  Claim C5. Let configuration files and environment variables supply no credentials.
  Constructing a client with an empty mail address or an empty password and with an
  empty refresh token raises \<open>ValueError\<close>; constructing it with a non-empty mail
  address without the character \<open>@\<close> raises \<open>ValueError\<close>, whatever the other
  arguments; constructing it with a non-empty refresh token alone succeeds. An argument
  is empty when it is \<open>None\<close> or the empty string.
\<close>

theorem init_credentials:
  assumes "load_config sys =
             \<lparr>cfg_mail_address = [], cfg_password = [], cfg_refresh_token = []\<rparr>"
  shows "((ma \<in> {None, Some []} \<or> pa \<in> {None, Some []}) \<and> ra \<in> {None, Some []} \<longrightarrow>
            fst (init sys e ra ma pa w) =
              Inl (ValueError ''Either mail_address/password or refresh_token is required.''))
       \<and> (ma = Some m \<and> m \<noteq> [] \<and> CHR ''@'' \<notin> set m \<longrightarrow>
            (\<exists>msg. fst (init sys e ra ma pa w) = Inl (ValueError msg)))
       \<and> (ra = Some r \<and> r \<noteq> [] \<and> ma \<in> {None, Some []} \<and> pa \<in> {None, Some []} \<longrightarrow>
            (\<exists>c. fst (init sys e ra ma pa w) = Inr c \<and> refresh_token c = r
                 \<and> mail_address c = [] \<and> password c = []))"
  using assms
  by (auto simp: init_def now_def Let_def split: option.splits)

theorem init_credentials_witness:
  "load_config bare_sysenv =
      \<lparr>cfg_mail_address = [], cfg_password = [], cfg_refresh_token = []\<rparr>
   \<and> fst (init bare_sysenv accepting_env None None None example_io) =
       Inl (ValueError ''Either mail_address/password or refresh_token is required.'')
   \<and> (\<exists>msg. fst (init bare_sysenv accepting_env None (Some ''mail'') (Some ''password'')
                  example_io) = Inl (ValueError msg))
   \<and> (\<exists>c. fst (init bare_sysenv accepting_env (Some ''token'') None None example_io) = Inr c
          \<and> refresh_token c = ''token'' \<and> mail_address c = [] \<and> password c = [])"
  using init_credentials [OF load_config_bare, where ma = None and pa = None and ra = None
           and e = accepting_env and w = example_io]
        init_credentials [OF load_config_bare, where ma = "Some ''mail''"
           and pa = "Some ''password''" and ra = None and m = "''mail''"
           and e = accepting_env and w = example_io]
        init_credentials [OF load_config_bare, where ma = None and pa = None
           and ra = "Some ''token''" and r = "''token''" and e = accepting_env
           and w = example_io]
        load_config_bare
  by simp

lemma init_succeeds:
  assumes "m = (case ma of None \<Rightarrow> cfg_mail_address (load_config sys) | Some a \<Rightarrow> a)"
    and "p = (case pa of None \<Rightarrow> cfg_password (load_config sys) | Some a \<Rightarrow> a)"
    and "r = (case ra of None \<Rightarrow> cfg_refresh_token (load_config sys) | Some a \<Rightarrow> a)"
    and "\<not> ((m = [] \<or> p = []) \<and> r = [])" and "\<not> (m \<noteq> [] \<and> CHR ''@'' \<notin> set m)"
  shows "init sys e ra ma pa w =
           (Inr \<lparr> mail_address = m, password = p, refresh_token = r,
                  refresh_token_expire =
                    (if r \<noteq> [] then clock e (ticks w) + timedelta_days 6
                     else clock e (ticks w)),
                  id_token = [], id_token_expire = clock e (Suc (ticks w)) \<rparr>,
            w\<lparr>ticks := Suc (Suc (ticks w))\<rparr>)"
  using assms by (simp add: init_def now_def Let_def)

lemma load_config_configured:
  "load_config configured_sysenv =
     \<lparr>cfg_mail_address = [], cfg_password = [], cfg_refresh_token = ''cfg''\<rparr>"
  by (simp add: load_config_def configured_sysenv_def read_config_def dict_get_def)


lemma init_fails:
  assumes "m = (case ma of None \<Rightarrow> cfg_mail_address (load_config sys) | Some a \<Rightarrow> a)"
    and "p = (case pa of None \<Rightarrow> cfg_password (load_config sys) | Some a \<Rightarrow> a)"
    and "r = (case ra of None \<Rightarrow> cfg_refresh_token (load_config sys) | Some a \<Rightarrow> a)"
    and "((m = [] \<or> p = []) \<and> r = []) \<or> (m \<noteq> [] \<and> CHR ''@'' \<notin> set m)"
  shows "\<exists>msg. fst (init sys e ra ma pa w) = Inl (ValueError msg)"
proof (cases "(m = [] \<or> p = []) \<and> r = []")
  case True
  with assms(1,2,3) show ?thesis by (simp add: init_def now_def Let_def)
next
  case False
  with assms(4) have "m \<noteq> [] \<and> CHR ''@'' \<notin> set m" by blast
  with False assms(1,2,3) show ?thesis by (simp add: init_def now_def Let_def)
qed

lemma init_outcome:
  "let m = (case ma of None \<Rightarrow> cfg_mail_address (load_config sys) | Some a \<Rightarrow> a);
       p = (case pa of None \<Rightarrow> cfg_password (load_config sys) | Some a \<Rightarrow> a);
       t = (case ra of None \<Rightarrow> cfg_refresh_token (load_config sys) | Some a \<Rightarrow> a)
   in if ((m = [] \<or> p = []) \<and> t = []) \<or> (m \<noteq> [] \<and> CHR ''@'' \<notin> set m)
      then \<exists>msg. fst (init sys e ra ma pa w) = Inl (ValueError msg)
      else \<exists>built. fst (init sys e ra ma pa w) = Inr built
             \<and> refresh_token built = t
             \<and> refresh_token_expire built =
                 (if t \<noteq> [] then clock e (ticks w) + timedelta_days 6
                  else clock e (ticks w))"
proof -
  define m where "m = (case ma of None \<Rightarrow> cfg_mail_address (load_config sys) | Some a \<Rightarrow> a)"
  define p where "p = (case pa of None \<Rightarrow> cfg_password (load_config sys) | Some a \<Rightarrow> a)"
  define t where "t = (case ra of None \<Rightarrow> cfg_refresh_token (load_config sys) | Some a \<Rightarrow> a)"
  have "if ((m = [] \<or> p = []) \<and> t = []) \<or> (m \<noteq> [] \<and> CHR ''@'' \<notin> set m)
      then \<exists>msg. fst (init sys e ra ma pa w) = Inl (ValueError msg)
      else \<exists>built. fst (init sys e ra ma pa w) = Inr built
             \<and> refresh_token built = t
             \<and> refresh_token_expire built =
                 (if t \<noteq> [] then clock e (ticks w) + timedelta_days 6
                  else clock e (ticks w))"
  proof (cases "((m = [] \<or> p = []) \<and> t = []) \<or> (m \<noteq> [] \<and> CHR ''@'' \<notin> set m)")
    case True
    from init_fails [OF m_def p_def t_def True, of e w] True show ?thesis by simp
  next
    case False
    then have c1: "\<not> ((m = [] \<or> p = []) \<and> t = [])"
      and c2: "\<not> (m \<noteq> [] \<and> CHR ''@'' \<notin> set m)" by blast+
    from init_succeeds [OF m_def p_def t_def c1 c2, of e w] False show ?thesis by simp
  qed
  then show ?thesis unfolding Let_def m_def p_def t_def .
qed

subsection \<open>Expiry of the credentials\<close>

text \<open>
  Claim C7. A body of \<open>get_id_token\<close> that found the cached access token expired and
  returned a token has stored that token with the expiry "time read after the exchange
  plus 23 hours". A call of \<open>get_refresh_token\<close> that found the cached refresh token
  expired and returned a token has stored it with the expiry "time read after the login
  plus 6 days". The constructor takes the refresh token of the argument, or of the
  configuration when the argument is \<open>None\<close>. Whenever its two checks pass (mail
  address and password given, or a refresh token; a mail address with \<open>@\<close>) it builds
  a client, and the client holds that refresh token with the expiry "time read first
  in the constructor plus 6 days" when the token is not empty, and that time itself
  when the client is built without a refresh token; no client is built otherwise.
\<close>

theorem credential_expiry:
  "(\<not> id_token_expire c > clock e (ticks w)
      \<and> get_id_token_body e r (w, c) = (Inr tok, (w', c')) \<longrightarrow>
        id_token c' = tok \<and> 0 < ticks w'
        \<and> id_token_expire c' = clock e (ticks w' - 1) + timedelta_hours 23)
   \<and> (\<not> refresh_token_expire c > clock e (ticks w)
      \<and> get_refresh_token e ma pa (w, c) = (Inr tok, (w', c')) \<longrightarrow>
        refresh_token c' = tok \<and> 0 < ticks w'
        \<and> refresh_token_expire c' = clock e (ticks w' - 1) + timedelta_days 6)
   \<and> (init sys e ra ma pa w = (Inr c, w') \<longrightarrow>
        refresh_token c =
          (case ra of None \<Rightarrow> cfg_refresh_token (load_config sys) | Some a \<Rightarrow> a)
        \<and> refresh_token_expire c =
            (if refresh_token c \<noteq> [] then clock e (ticks w) + timedelta_days 6
             else clock e (ticks w)))
   \<and> (let m = (case ma of None \<Rightarrow> cfg_mail_address (load_config sys) | Some a \<Rightarrow> a);
           p = (case pa of None \<Rightarrow> cfg_password (load_config sys) | Some a \<Rightarrow> a);
           t = (case ra of None \<Rightarrow> cfg_refresh_token (load_config sys) | Some a \<Rightarrow> a)
       in if ((m = [] \<or> p = []) \<and> t = []) \<or> (m \<noteq> [] \<and> CHR ''@'' \<notin> set m)
          then \<exists>msg. fst (init sys e ra ma pa w) = Inl (ValueError msg)
          else \<exists>built. fst (init sys e ra ma pa w) = Inr built
                 \<and> refresh_token built = t
                 \<and> refresh_token_expire built =
                     (if t \<noteq> [] then clock e (ticks w) + timedelta_days 6
                      else clock e (ticks w)))"
proof -
  have a: "\<not> id_token_expire c > clock e (ticks w)
      \<and> get_id_token_body e r (w, c) = (Inr tok, (w', c')) \<longrightarrow>
        id_token c' = tok \<and> 0 < ticks w'
        \<and> id_token_expire c' = clock e (ticks w' - 1) + timedelta_hours 23"
    using body_exchange_ok [where c = c and e = e and w = w and r = r and tok = tok
          and w' = w' and c' = c'] by blast
  have b: "\<not> refresh_token_expire c > clock e (ticks w)
      \<and> get_refresh_token e ma pa (w, c) = (Inr tok, (w', c')) \<longrightarrow>
        refresh_token c' = tok \<and> 0 < ticks w'
        \<and> refresh_token_expire c' = clock e (ticks w' - 1) + timedelta_days 6"
    using refresh_login [where c = c and e = e and w = w and ma = ma and pa = pa
          and tok = tok and w' = w' and c' = c'] by blast
  have d: "init sys e ra ma pa w = (Inr c, w') \<longrightarrow>
        refresh_token c =
          (case ra of None \<Rightarrow> cfg_refresh_token (load_config sys) | Some a \<Rightarrow> a)
        \<and> refresh_token_expire c =
            (if refresh_token c \<noteq> [] then clock e (ticks w) + timedelta_days 6
             else clock e (ticks w))"
    using init_expiry [where sys = sys and e = e and ra = ra and ma = ma and pa = pa
          and w = w and c = c and w' = w'] by blast
  note f = init_outcome [where ma = ma and sys = sys and pa = pa and ra = ra and e = e
      and w = w]
  from a b d f show ?thesis by blast
qed

theorem credential_expiry_witness:
  "\<not> id_token_expire example_client > clock accepting_env (ticks example_io)
   \<and> fst (get_id_token_body accepting_env None (example_io, example_client)) = Inr ''I''
   \<and> id_token_expire (snd (snd (get_id_token_body accepting_env None
        (example_io, example_client)))) = clock accepting_env 3 + timedelta_hours 23
   \<and> \<not> refresh_token_expire example_client > clock accepting_env (ticks example_io)
   \<and> fst (get_refresh_token accepting_env None None (example_io, example_client)) = Inr ''R''
   \<and> refresh_token_expire (snd (snd (get_refresh_token accepting_env None None
        (example_io, example_client)))) = clock accepting_env 1 + timedelta_days 6
   \<and> refresh_token_expire (projr (fst (init bare_sysenv accepting_env (Some ''token'')
        None None example_io))) = clock accepting_env 0 + timedelta_days 6
   \<and> (\<exists>built. fst (init configured_sysenv accepting_env None None None
                    (example_io\<lparr>ticks := 7\<rparr>)) = Inr built
          \<and> refresh_token built = ''cfg''
          \<and> refresh_token_expire built = 7000000 + timedelta_days 6)
   \<and> (\<exists>built. fst (init bare_sysenv accepting_env None (Some ''a@b'') (Some ''pw'')
                    (example_io\<lparr>ticks := 7\<rparr>)) = Inr built
          \<and> refresh_token built = []
          \<and> refresh_token_expire built = 7000000)
   \<and> (\<exists>msg. fst (init bare_sysenv accepting_env None (Some ''a@b'') None example_io)
          = Inl (ValueError msg))"
proof -
  note a = credential_expiry [where c = example_client and e = accepting_env
      and w = example_io and r = None and tok = "''I''"
      and w' = "\<lparr>ticks = 4, posts = [AuthUser ''a@b'' ''pw'', AuthRefresh ''R''],
                  sleeps = [], attempts = 0\<rparr>"
      and c' = "\<lparr>mail_address = ''a@b'', password = ''pw'', refresh_token = ''R'',
                  refresh_token_expire = 518402000000, id_token = ''I'',
                  id_token_expire = 82803000000\<rparr>"]
  note b = credential_expiry [where c = example_client and e = accepting_env
      and w = example_io and ma = None and pa = None and tok = "''R''"
      and w' = "\<lparr>ticks = 2, posts = [AuthUser ''a@b'' ''pw''], sleeps = [], attempts = 0\<rparr>"
      and c' = "\<lparr>mail_address = ''a@b'', password = ''pw'', refresh_token = ''R'',
                  refresh_token_expire = 518401000000, id_token = [], id_token_expire = 0\<rparr>"]
  note d = credential_expiry [where sys = bare_sysenv and e = accepting_env
      and w = example_io and ra = "Some ''token''" and ma = None and pa = None
      and c = "\<lparr>mail_address = [], password = [], refresh_token = ''token'',
                 refresh_token_expire = 518400000000, id_token = [],
                 id_token_expire = 1000000\<rparr>"
      and w' = "\<lparr>ticks = 2, posts = [], sleeps = [], attempts = 0\<rparr>"]
  have p1: "\<not> id_token_expire example_client > clock accepting_env (ticks example_io)
   \<and> fst (get_id_token_body accepting_env None (example_io, example_client)) = Inr ''I''
   \<and> id_token_expire (snd (snd (get_id_token_body accepting_env None
        (example_io, example_client)))) = clock accepting_env 3 + timedelta_hours 23"
    using a example_body_run
    by (simp add: example_client_def example_io_def accepting_env_def example_clock_def)
  have p2: "\<not> refresh_token_expire example_client > clock accepting_env (ticks example_io)
   \<and> fst (get_refresh_token accepting_env None None (example_io, example_client)) = Inr ''R''
   \<and> refresh_token_expire (snd (snd (get_refresh_token accepting_env None None
        (example_io, example_client)))) = clock accepting_env 1 + timedelta_days 6"
    using b example_login_run
    by (simp add: example_client_def example_io_def accepting_env_def example_clock_def)
  have p3: "refresh_token_expire (projr (fst (init bare_sysenv accepting_env (Some ''token'')
        None None example_io))) = clock accepting_env 0 + timedelta_days 6"
    using d example_init_run
    by (simp add: example_io_def accepting_env_def example_clock_def)
  have p4: "\<exists>built. fst (init configured_sysenv accepting_env None None None
                    (example_io\<lparr>ticks := 7\<rparr>)) = Inr built
          \<and> refresh_token built = ''cfg''
          \<and> refresh_token_expire built = 7000000 + timedelta_days 6"
    using credential_expiry [where sys = configured_sysenv and e = accepting_env
      and w = "example_io\<lparr>ticks := 7\<rparr>" and ra = None and ma = None and pa = None]
    by (simp add: load_config_configured Let_def accepting_env_def example_clock_def)
  have p5: "\<exists>built. fst (init bare_sysenv accepting_env None (Some ''a@b'') (Some ''pw'')
                    (example_io\<lparr>ticks := 7\<rparr>)) = Inr built
          \<and> refresh_token built = []
          \<and> refresh_token_expire built = 7000000"
    using credential_expiry [where sys = bare_sysenv and e = accepting_env
      and w = "example_io\<lparr>ticks := 7\<rparr>" and ra = None and ma = "Some ''a@b''"
      and pa = "Some ''pw''"]
    by (simp add: load_config_bare Let_def accepting_env_def example_clock_def)
  have p6: "\<exists>msg. fst (init bare_sysenv accepting_env None (Some ''a@b'') None example_io)
          = Inl (ValueError msg)"
    using credential_expiry [where sys = bare_sysenv and e = accepting_env
      and w = example_io and ra = None and ma = "Some ''a@b''" and pa = None]
    by (simp add: load_config_bare Let_def)
  from p1 p2 p3 p4 p5 p6 show ?thesis by blast
qed

subsection \<open>Failure of the credential exchange\<close>

lemma get_id_token_body_keeps:
  assumes "get_id_token_body e r (w, c) = (res, (w', c'))"
  shows "sleeps w' = sleeps w \<and> attempts w' = attempts w"
proof -
  obtain res1 w1 c1 where
    rf: "refresh_token_for e r (w\<lparr>ticks := Suc (ticks w)\<rparr>, c) = (res1, (w1, c1))"
    by (metis surj_pair)
  from refresh_token_for_keeps [OF rf]
  have k1: "sleeps w1 = sleeps w \<and> attempts w1 = attempts w" by simp
  show ?thesis
  proof (cases "id_token_expire c > clock e (ticks w)")
    case True
    with assms show ?thesis by (auto simp: get_id_token_body_def now_def)
  next
    case expired: False
    show ?thesis
    proof (cases res1)
      case (Inl x)
      with assms rf k1 expired show ?thesis
        by (auto simp: get_id_token_body_def now_def)
    next
      case rt: (Inr tk)
      obtain res2 w2 where p: "post e (AuthRefresh tk) w1 = (res2, w2)"
        by (metis surj_pair)
      from post_keeps [OF p] k1
      have k2: "sleeps w2 = sleeps w \<and> attempts w2 = attempts w" by simp
      show ?thesis
      proof (cases res2)
        case (Inl x)
        with assms rf rt p k2 expired show ?thesis
          by (cases x) (auto simp: get_id_token_body_def now_def on_http_error_def Let_def
              split: prod.splits if_splits)
      next
        case (Inr ret)
        with assms rf rt p k2 expired show ?thesis
          by (auto simp: get_id_token_body_def now_def Let_def split: sum.splits)
      qed
    qed
  qed
qed

lemma wait_exponential_first: "1 \<le> n \<Longrightarrow> n \<le> 3 \<Longrightarrow> wait_exponential 1 5 300 n = 5"
proof -
  assume "1 \<le> n" "n \<le> 3"
  then have "n = 1 \<or> n = 2 \<or> n = 3" by arith
  then show ?thesis by (auto simp: wait_exponential_def)
qed

lemma get_id_token_from_bound:
  "get_id_token_from e r n s = (res, s') \<Longrightarrow> 1 \<le> n \<Longrightarrow> n \<le> 3 \<Longrightarrow>
     attempts (fst s) < attempts (fst s')
     \<and> attempts (fst s') + n \<le> attempts (fst s) + 4
     \<and> sleeps (fst s') =
         sleeps (fst s) @ replicate (attempts (fst s') - attempts (fst s) - 1) 5"
proof (induction e r n s arbitrary: res s' rule: get_id_token_from.induct)
  case (1 e r n s)
  obtain w c where s: "s = (w, c)" by (cases s)
  obtain b w1 c1 where body: "get_id_token_body e r (enter s) = (b, (w1, c1))"
    by (metis surj_pair)
  from get_id_token_body_keeps [of e r "w\<lparr>attempts := Suc (attempts w)\<rparr>" c b w1 c1] body s
  have k: "sleeps w1 = sleeps w \<and> attempts w1 = Suc (attempts w)"
    by (simp add: enter_def)
  show ?case
  proof (cases b)
    case (Inr tok)
    with "1.prems" body s k show ?thesis
      by (auto simp: get_id_token_from.simps [of e r n "(w, c)"])
  next
    case (Inl x)
    show ?thesis
    proof (cases "retry_if_exception_type x \<and> \<not> stop_after_attempt 3 n")
      case False
      with "1.prems" body s k Inl show ?thesis
        by (auto simp: get_id_token_from.simps [of e r n "(w, c)"] split: if_splits)
    next
      case True
      with "1.prems" body Inl s
      have rec: "get_id_token_from e r (Suc n) (sleep (wait_exponential 1 5 300 n) (w1, c1))
                   = (res, s')"
        by (simp add: get_id_token_from.simps [of e r n "(w, c)"])
      from True have n3: "Suc n \<le> 3" by (simp add: stop_after_attempt_def)
      from True have r1: "\<not> \<not> retry_if_exception_type x"
        and r2: "\<not> stop_after_attempt 3 n" by simp_all
      from "1.IH" [OF body [symmetric] Inl r1 r2 rec] n3
      have ih: "attempts (fst (sleep (wait_exponential 1 5 300 n) (w1, c1))) < attempts (fst s')
          \<and> attempts (fst s') + Suc n
              \<le> attempts (fst (sleep (wait_exponential 1 5 300 n) (w1, c1))) + 4
          \<and> sleeps (fst s') =
              sleeps (fst (sleep (wait_exponential 1 5 300 n) (w1, c1)))
              @ replicate (attempts (fst s')
                  - attempts (fst (sleep (wait_exponential 1 5 300 n) (w1, c1))) - 1) 5"
        by simp
      have w5: "wait_exponential 1 5 300 n = 5"
        using "1.prems" by (simp add: wait_exponential_first)
      from ih k have lt: "Suc (attempts w) < attempts (fst s')"
        by (simp add: sleep_def)
      then have d: "attempts (fst s') - Suc (attempts w)
                      = Suc (attempts (fst s') - Suc (Suc (attempts w)))"
        by arith
      have rep: "(5::int) # replicate (attempts (fst s') - Suc (Suc (attempts w))) 5
                   = replicate (attempts (fst s') - Suc (attempts w)) 5"
        unfolding d by simp
      from ih k s w5 lt rep show ?thesis
        by (simp add: sleep_def)
    qed
  qed
qed

lemma wait_exponential_values:
  "wait_exponential 1 5 300 n = (if n \<le> 3 then 5 else min (2 ^ (n - 1)) 300)"
proof (cases "n \<le> 3")
  case True
  then have "n = 0 \<or> n = 1 \<or> n = 2 \<or> n = 3" by arith
  then show ?thesis by (auto simp: wait_exponential_def)
next
  case False
  then have "4 \<le> n" by simp
  then obtain k where k: "n = 4 + k" using nat_le_iff_add by blast
  have "(8::int) \<le> 2 ^ (n - 1)" unfolding k by (simp add: power_add)
  with False show ?thesis by (simp add: wait_exponential_def)
qed

lemma accepting_run:
  "get_id_token accepting_env None (example_io, example_client) =
     (Inr ''I'',
      (\<lparr>ticks = 4, posts = [AuthUser ''a@b'' ''pw'', AuthRefresh ''R''],
          sleeps = [], attempts = 1\<rparr>,
       \<lparr>mail_address = ''a@b'', password = ''pw'', refresh_token = ''R'',
          refresh_token_expire = 518402000000, id_token = ''I'',
          id_token_expire = 82803000000\<rparr>))"
  by code_simp

lemma rejecting_run:
  "get_id_token rejecting_env None (example_io, example_client) =
     (Inl (RetryError (TokenAuthRefreshBadRequestException (HTTPError 400))),
      (\<lparr>ticks = 15,
         posts = [AuthUser ''a@b'' ''pw'', AuthRefresh ''R'', AuthUser ''a@b'' ''pw'',
                  AuthRefresh ''R'', AuthUser ''a@b'' ''pw'', AuthRefresh ''R''],
         sleeps = [5, 5], attempts = 3\<rparr>,
       \<lparr>mail_address = ''a@b'', password = ''pw'', refresh_token = [],
         refresh_token_expire = 13000000, id_token = [], id_token_expire = 14000000\<rparr>))"
  by code_simp

text \<open>
  Claim C1. Let a body of \<open>get_id_token\<close>, entered as attempt \<open>n\<close>, find the cached
  access token expired, obtain a refresh token and fail the exchange with an HTTP error
  of status \<open>code\<close>. The body raises the exception the decorator retries on if and
  only if no refresh token was passed as an argument, the status is 400 and the stored
  mail address and password are both non-empty. In exactly that case both cached
  credentials are cleared before the exception is raised (the tokens empty, each expiry
  a fresh reading of the clock), and the decorator sleeps and enters the body again on
  the cleared state, within its bound of three attempts (the retry policy, claim C3),
  past which it raises \<open>RetryError\<close>. In every other case the HTTP error itself is
  raised and leaves the decorator at once, whatever the number of the attempt: no
  sleep, no further attempt, and the credentials as they were before the exchange.
\<close>

theorem exchange_failure_policy:
  assumes expired: "\<not> id_token_expire c > clock e (ticks w)"
    and rf: "refresh_token_for e r
               (w\<lparr>attempts := Suc (attempts w), ticks := Suc (ticks w)\<rparr>, c)
             = (Inr tk, (w2, c2))"
    and px: "post e (AuthRefresh tk) w2 = (Inl (HTTPError code), w3)"
  shows
    "(let retry = (r = None \<and> code = 400 \<and> mail_address c \<noteq> [] \<and> password c \<noteq> []);
          cleared =
            (w3\<lparr>ticks := Suc (Suc (ticks w3))\<rparr>,
             c2\<lparr>refresh_token := [], refresh_token_expire := clock e (ticks w3),
                id_token := [], id_token_expire := clock e (Suc (ticks w3))\<rparr>)
      in get_id_token_body e r (enter (w, c)) =
           (if retry
            then (Inl (TokenAuthRefreshBadRequestException (HTTPError code)), cleared)
            else (Inl (HTTPError code), (w3, c2)))
         \<and> (\<exists>x s'. get_id_token_body e r (enter (w, c)) = (Inl x, s')
                \<and> (retry_if_exception_type x \<longleftrightarrow> retry))
         \<and> get_id_token_from e r n (w, c) =
             (if retry
              then
                if n < 3
                then get_id_token_from e r (Suc n) (sleep (wait_exponential 1 5 300 n) cleared)
                else (Inl (RetryError (TokenAuthRefreshBadRequestException (HTTPError code))),
                      cleared)
              else (Inl (HTTPError code), (w3, c2))))"
proof -
  from refresh_token_for_keeps [OF rf]
  have keep: "mail_address c2 = mail_address c \<and> password c2 = password c" by simp
  have body: "get_id_token_body e r (enter (w, c)) =
      (let (x, s4) = on_http_error e r code (w3, c2) in (Inl x, s4))"
    using expired rf px
    by (simp add: get_id_token_body_def enter_def now_def)
  have b2: "get_id_token_body e r (enter (w, c)) =
      (if r = None \<and> code = 400 \<and> mail_address c \<noteq> [] \<and> password c \<noteq> []
       then (Inl (TokenAuthRefreshBadRequestException (HTTPError code)),
             (w3\<lparr>ticks := Suc (Suc (ticks w3))\<rparr>,
              c2\<lparr>refresh_token := [], refresh_token_expire := clock e (ticks w3),
                 id_token := [], id_token_expire := clock e (Suc (ticks w3))\<rparr>))
       else (Inl (HTTPError code), (w3, c2)))"
    using keep by (simp add: body on_http_error_def now_def Let_def)
  have w: "get_id_token_from e r n (w, c) =
      (if r = None \<and> code = 400 \<and> mail_address c \<noteq> [] \<and> password c \<noteq> []
       then
         if n < 3
         then get_id_token_from e r (Suc n) (sleep (wait_exponential 1 5 300 n)
                (w3\<lparr>ticks := Suc (Suc (ticks w3))\<rparr>,
                 c2\<lparr>refresh_token := [], refresh_token_expire := clock e (ticks w3),
                    id_token := [], id_token_expire := clock e (Suc (ticks w3))\<rparr>))
         else (Inl (RetryError (TokenAuthRefreshBadRequestException (HTTPError code))),
                (w3\<lparr>ticks := Suc (Suc (ticks w3))\<rparr>,
                 c2\<lparr>refresh_token := [], refresh_token_expire := clock e (ticks w3),
                    id_token := [], id_token_expire := clock e (Suc (ticks w3))\<rparr>))
       else (Inl (HTTPError code), (w3, c2)))"
    by (simp add: get_id_token_from.simps [of e r n "(w, c)"] b2 stop_after_attempt_def
        not_less)
  have x: "\<exists>x s'. get_id_token_body e r (enter (w, c)) = (Inl x, s')
      \<and> (retry_if_exception_type x \<longleftrightarrow>
           (r = None \<and> code = 400 \<and> mail_address c \<noteq> [] \<and> password c \<noteq> []))"
    by (simp add: b2)
  from b2 w x show ?thesis unfolding Let_def by blast
qed

theorem exchange_failure_policy_witness:
  "\<not> id_token_expire example_client > clock rejecting_env (ticks example_io)
   \<and> refresh_token_for rejecting_env None
        (example_io\<lparr>attempts := Suc (attempts example_io),
                     ticks := Suc (ticks example_io)\<rparr>, example_client)
      = (Inr ''R'',
         (\<lparr>ticks = 3, posts = [AuthUser ''a@b'' ''pw''], sleeps = [], attempts = 1\<rparr>,
          example_client\<lparr>refresh_token := ''R'', refresh_token_expire := 518402000000\<rparr>))
   \<and> post rejecting_env (AuthRefresh ''R'')
        \<lparr>ticks = 3, posts = [AuthUser ''a@b'' ''pw''], sleeps = [], attempts = 1\<rparr>
      = (Inl (HTTPError 400),
         \<lparr>ticks = 3, posts = [AuthUser ''a@b'' ''pw'', AuthRefresh ''R''], sleeps = [],
            attempts = 1\<rparr>)
   \<and> get_id_token_body rejecting_env None (enter (example_io, example_client)) =
       (Inl (TokenAuthRefreshBadRequestException (HTTPError 400)),
        (\<lparr>ticks = 5, posts = [AuthUser ''a@b'' ''pw'', AuthRefresh ''R''], sleeps = [],
            attempts = 1\<rparr>,
         example_client\<lparr>refresh_token_expire := 3000000, id_token_expire := 4000000\<rparr>))
   \<and> get_id_token_from rejecting_env None 1 (example_io, example_client) =
       get_id_token_from rejecting_env None 2
         (\<lparr>ticks = 5, posts = [AuthUser ''a@b'' ''pw'', AuthRefresh ''R''], sleeps = [5],
            attempts = 1\<rparr>,
          example_client\<lparr>refresh_token_expire := 3000000, id_token_expire := 4000000\<rparr>)
   \<and> refresh_token_for rejecting_env (Some ''X'')
        (example_io\<lparr>attempts := Suc (attempts example_io),
                     ticks := Suc (ticks example_io)\<rparr>, example_client)
      = (Inr ''X'', (\<lparr>ticks = 1, posts = [], sleeps = [], attempts = 1\<rparr>, example_client))
   \<and> post rejecting_env (AuthRefresh ''X'')
        \<lparr>ticks = 1, posts = [], sleeps = [], attempts = 1\<rparr>
      = (Inl (HTTPError 400),
         \<lparr>ticks = 1, posts = [AuthRefresh ''X''], sleeps = [], attempts = 1\<rparr>)
   \<and> get_id_token_from rejecting_env (Some ''X'') 1 (example_io, example_client) =
       (Inl (HTTPError 400),
        (\<lparr>ticks = 1, posts = [AuthRefresh ''X''], sleeps = [], attempts = 1\<rparr>,
         example_client))"
proof -
  have h1: "\<not> id_token_expire example_client > clock rejecting_env (ticks example_io)"
    by (simp add: example_client_def rejecting_env_def example_clock_def example_io_def)
  have h2: "refresh_token_for rejecting_env None
        (example_io\<lparr>attempts := Suc (attempts example_io),
                     ticks := Suc (ticks example_io)\<rparr>, example_client)
      = (Inr ''R'',
         (\<lparr>ticks = 3, posts = [AuthUser ''a@b'' ''pw''], sleeps = [], attempts = 1\<rparr>,
          example_client\<lparr>refresh_token := ''R'', refresh_token_expire := 518402000000\<rparr>))"
    by code_simp
  have h3: "post rejecting_env (AuthRefresh ''R'')
        \<lparr>ticks = 3, posts = [AuthUser ''a@b'' ''pw''], sleeps = [], attempts = 1\<rparr>
      = (Inl (HTTPError 400),
         \<lparr>ticks = 3, posts = [AuthUser ''a@b'' ''pw'', AuthRefresh ''R''], sleeps = [],
            attempts = 1\<rparr>)"
    by code_simp
  have g2: "refresh_token_for rejecting_env (Some ''X'')
        (example_io\<lparr>attempts := Suc (attempts example_io),
                     ticks := Suc (ticks example_io)\<rparr>, example_client)
      = (Inr ''X'', (\<lparr>ticks = 1, posts = [], sleeps = [], attempts = 1\<rparr>, example_client))"
    by code_simp
  have g3: "post rejecting_env (AuthRefresh ''X'')
        \<lparr>ticks = 1, posts = [], sleeps = [], attempts = 1\<rparr>
      = (Inl (HTTPError 400),
         \<lparr>ticks = 1, posts = [AuthRefresh ''X''], sleeps = [], attempts = 1\<rparr>)"
    by code_simp
  from exchange_failure_policy [OF h1 h2 h3, of 1] exchange_failure_policy [OF h1 g2 g3, of 1]
    h1 h2 h3 g2 g3
  show ?thesis
    by (simp add: example_client_def rejecting_env_def example_clock_def sleep_def
        wait_exponential_def numeral_2_eq_2 Let_def)
qed

subsection \<open>Retry policy\<close>

text \<open>
  Claim C3, as amended. A call of \<open>get_id_token\<close> enters the body at least once and at
  most three times. The decorator sleeps once between two attempts, so at most twice,
  and each of these sleeps lasts 5 seconds. In general the wait after attempt \<open>n\<close> is
  \<open>2 ^ (n - 1)\<close> seconds, raised to the minimum of 5 and cut at the maximum of 300: it
  is 5 seconds after each of the first three attempts and 8, 16, 32, ... up to 300
  seconds from the fourth on.
\<close>

theorem retry_policy:
  "attempts w < attempts (fst (snd (get_id_token e r (w, c))))
   \<and> attempts (fst (snd (get_id_token e r (w, c)))) \<le> attempts w + 3
   \<and> sleeps (fst (snd (get_id_token e r (w, c)))) =
       sleeps w @ replicate (attempts (fst (snd (get_id_token e r (w, c)))) - attempts w - 1) 5
   \<and> wait_exponential 1 5 300 n = (if n \<le> 3 then 5 else min (2 ^ (n - 1)) 300)"
proof -
  obtain res s' where run: "get_id_token_from e r 1 (w, c) = (res, s')"
    by (metis surj_pair)
  from get_id_token_from_bound [OF run] run show ?thesis
    by (simp add: get_id_token_def wait_exponential_values)
qed

theorem retry_policy_witness:
  "attempts (fst (snd (get_id_token accepting_env None (example_io, example_client)))) = 1
   \<and> sleeps (fst (snd (get_id_token accepting_env None (example_io, example_client)))) = []
   \<and> wait_exponential 1 5 300 4 = 8
   \<and> wait_exponential 1 5 300 10 = 300"
  using retry_policy [of example_io accepting_env None example_client 4]
    retry_policy [of example_io accepting_env None example_client 10]
  by (simp add: accepting_run)

text \<open>
  The delays are not 5, 10 and 20 seconds: the run against the rejecting server sleeps
  5 seconds twice and never a third time, and the waits after the second and third
  attempt are 5 seconds each.
\<close>

theorem retry_policy_counterexample:
  "sleeps (fst (snd (get_id_token rejecting_env None (example_io, example_client)))) = [5, 5]
   \<and> wait_exponential 1 5 300 2 \<noteq> 10
   \<and> wait_exponential 1 5 300 3 \<noteq> 20"
  by (simp add: rejecting_run wait_exponential_def)

subsection \<open>Concurrent callers\<close>

lemma body_split:
  "get_id_token_body e r s =
     (case id_token_check e s of
        (Some tok, s1) \<Rightarrow> (Inr tok, s1)
      | (None, s1) \<Rightarrow> id_token_refresh e r s1)"
  by (simp add: get_id_token_body_def id_token_check_def id_token_refresh_def
      split: prod.splits)

lemma run_callers_Nil: "run_callers e r [] cs = cs"
  by (simp add: run_callers_def)

lemma run_callers_Cons:
  "run_callers e r (i # sched) (ts, s) =
     run_callers e r sched
       (if i < length ts
        then (ts[i := fst (caller_step e r (ts ! i) s)], snd (caller_step e r (ts ! i) s))
        else (ts, s))"
  by (simp add: run_callers_def split: prod.splits)

lemma run_callers_append:
  "run_callers e r (xs @ ys) cs = run_callers e r ys (run_callers e r xs cs)"
  by (simp add: run_callers_def)

lemma returned_stays: "run_callers e r sched ([Returned v], s) = ([Returned v], s)"
  by (induction sched) (simp_all add: run_callers_Nil run_callers_Cons)

lemma run_two:
  "run_callers e r (0 # 0 # sched) ([Ready n], s) =
     run_callers e r sched
       (case get_id_token_body e r (enter s) of
          (Inr tok, s') \<Rightarrow> ([Returned (Inr tok)], s')
        | (Inl x, s') \<Rightarrow>
            if \<not> retry_if_exception_type x then ([Returned (Inl x)], s')
            else if stop_after_attempt 3 n then ([Returned (Inl (RetryError x))], s')
            else ([Ready (Suc n)], sleep (wait_exponential 1 5 300 n) s'))"
  by (simp add: run_callers_Cons body_split split: prod.splits option.splits sum.splits)

lemma single_caller_from:
  "n \<le> 3 \<Longrightarrow>
   run_callers e r (replicate (2 * (4 - n)) 0) ([Ready n], s) =
     ([Returned (fst (get_id_token_from e r n s))], snd (get_id_token_from e r n s))"
proof (induction e r n s rule: get_id_token_from.induct)
  case (1 e r n s)
  have rep: "replicate (2 * (4 - n)) 0 = 0 # 0 # replicate (2 * (4 - Suc n)) (0::nat)"
  proof -
    from "1.prems" have "2 * (4 - n) = Suc (Suc (2 * (4 - Suc n)))" by simp
    then show ?thesis by simp
  qed
  obtain res s' where b: "get_id_token_body e r (enter s) = (res, s')"
    by (cases "get_id_token_body e r (enter s)") auto
  show ?case
  proof (cases res)
    case (Inr tok)
    with b show ?thesis
      by (simp add: rep run_two returned_stays get_id_token_from.simps [of e r n s])
  next
    case (Inl x)
    show ?thesis
    proof (cases "retry_if_exception_type x \<and> \<not> stop_after_attempt 3 n")
      case False
      with b Inl show ?thesis
        by (auto simp: rep run_two returned_stays get_id_token_from.simps [of e r n s])
    next
      case True
      then have "Suc n \<le> 3" by (simp add: stop_after_attempt_def)
      with "1.IH" b Inl True
      have "run_callers e r (replicate (2 * (4 - Suc n)) 0)
              ([Ready (Suc n)], sleep (wait_exponential 1 5 300 n) s') =
            ([Returned (fst (get_id_token_from e r (Suc n)
                               (sleep (wait_exponential 1 5 300 n) s')))],
             snd (get_id_token_from e r (Suc n) (sleep (wait_exponential 1 5 300 n) s')))"
        by simp
      with b Inl True show ?thesis
        by (simp add: rep run_two get_id_token_from.simps [of e r n s])
    qed
  qed
qed

lemma single_caller:
  "run_callers e r [0, 0, 0, 0, 0, 0] ([Ready 1], s) =
     ([Returned (fst (get_id_token e r s))], snd (get_id_token e r s))"
  using single_caller_from [of 1 e r s]
  by (simp add: get_id_token_def numeral_eq_Suc)

lemma check_valid:
  "id_token_expire c > clock e (ticks w) \<Longrightarrow>
   caller_step e r (Ready n) (w, c) =
     (Returned (Inr (id_token c)),
      (w\<lparr>ticks := Suc (ticks w), attempts := Suc (attempts w)\<rparr>, c))"
  by (simp add: id_token_check_def enter_def now_def)

lemma check_expired:
  "\<not> id_token_expire c > clock e (ticks w) \<Longrightarrow>
   caller_step e r (Ready n) (w, c) =
     (Missed n, (w\<lparr>ticks := Suc (ticks w), attempts := Suc (attempts w)\<rparr>, c))"
  by (simp add: id_token_check_def enter_def now_def)

lemma run_callers_valid:
  assumes "\<forall>k. ticks w \<le> k \<and> k < ticks w + length sched \<longrightarrow> id_token_expire c > clock e k"
    and "\<forall>i<length ts. ts ! i = Ready 1 \<or> ts ! i = Returned (Inr (id_token c))"
  shows "\<exists>ts' w'. run_callers e r sched (ts, (w, c)) = (ts', (w', c))
           \<and> posts w' = posts w \<and> sleeps w' = sleeps w \<and> length ts' = length ts
           \<and> (\<forall>i<length ts. ts' ! i =
                 (if i \<in> set sched then Returned (Inr (id_token c)) else ts ! i))"
  using assms
proof (induction sched arbitrary: ts w)
  case Nil
  then show ?case by (simp add: run_callers_Nil)
next
  case (Cons j sched)
  show ?case
  proof (cases "j < length ts \<and> ts ! j = Ready 1")
    case False
    have same: "run_callers e r (j # sched) (ts, (w, c)) = run_callers e r sched (ts, (w, c))"
    proof (cases "j < length ts")
      case inside: True
      with False Cons.prems(2) have "ts ! j = Returned (Inr (id_token c))" by auto
      moreover from this have "ts[j := Returned (Inr (id_token c))] = ts"
        by (metis list_update_id)
      ultimately show ?thesis using inside by (simp add: run_callers_Cons)
    next
      case False
      then show ?thesis by (simp add: run_callers_Cons)
    qed
    have "\<forall>k. ticks w \<le> k \<and> k < ticks w + length sched \<longrightarrow> id_token_expire c > clock e k"
      using Cons.prems(1) by simp
    from Cons.IH [OF this Cons.prems(2)] obtain ts' w' where
      run: "run_callers e r sched (ts, (w, c)) = (ts', (w', c))"
      and keep: "posts w' = posts w" "sleeps w' = sleeps w" "length ts' = length ts"
      and each: "\<forall>i<length ts. ts' ! i =
                 (if i \<in> set sched then Returned (Inr (id_token c)) else ts ! i)"
      by blast
    have "\<forall>i<length ts. ts' ! i =
            (if i \<in> set (j # sched) then Returned (Inr (id_token c)) else ts ! i)"
      using each False Cons.prems(2) by auto
    with same run keep show ?thesis by simp
  next
    case True
    let ?w1 = "w\<lparr>ticks := Suc (ticks w), attempts := Suc (attempts w)\<rparr>"
    let ?ts1 = "ts[j := Returned (Inr (id_token c))]"
    have v: "id_token_expire c > clock e (ticks w)" using Cons.prems(1) by simp
    have step: "run_callers e r (j # sched) (ts, (w, c)) = run_callers e r sched (?ts1, (?w1, c))"
      using True check_valid [OF v, of r 1] by (simp add: run_callers_Cons)
    have w1: "\<forall>k. ticks ?w1 \<le> k \<and> k < ticks ?w1 + length sched \<longrightarrow> id_token_expire c > clock e k"
      using Cons.prems(1) by simp
    have t1: "\<forall>i<length ?ts1. ?ts1 ! i = Ready 1 \<or> ?ts1 ! i = Returned (Inr (id_token c))"
      using Cons.prems(2) True by (auto simp: nth_list_update)
    from Cons.IH [OF w1 t1] obtain ts' w' where
      run: "run_callers e r sched (?ts1, (?w1, c)) = (ts', (w', c))"
      and keep: "posts w' = posts w" "sleeps w' = sleeps w" "length ts' = length ts"
      and each: "\<forall>i<length ts. ts' ! i =
                 (if i \<in> set sched then Returned (Inr (id_token c)) else ?ts1 ! i)"
      by auto
    have "\<forall>i<length ts. ts' ! i =
            (if i \<in> set (j # sched) then Returned (Inr (id_token c)) else ts ! i)"
      using each True by (auto simp: nth_list_update)
    with step run keep show ?thesis by simp
  qed
qed

lemma refresh_accepted:
  assumes "clock e (ticks w) < refresh_token_expire c"
    and "server e (length (posts w)) (AuthRefresh (refresh_token c)) = Inr resp"
    and "\<not> (400 \<le> status_code resp \<and> status_code resp < 600)"
    and "json_field resp ''idToken'' = Inr tok"
  shows "caller_step e None (Missed n) (w, c) =
           (Returned (Inr tok),
            (w\<lparr>ticks := Suc (Suc (ticks w)),
               posts := posts w @ [AuthRefresh (refresh_token c)]\<rparr>,
             c\<lparr>id_token := tok,
               id_token_expire := clock e (Suc (ticks w)) + timedelta_hours 23\<rparr>))"
  using assms
  by (auto simp: id_token_refresh_def refresh_token_for_def get_refresh_token_def now_def
      post_def Let_def)

lemma all_check:
  assumes "\<forall>k. ticks w \<le> k \<and> k < ticks w + N \<longrightarrow> \<not> id_token_expire c > clock e k"
    and "m \<le> N"
  shows "run_callers e r [0..<m] (replicate N (Ready 1), (w, c)) =
           (replicate m (Missed 1) @ replicate (N - m) (Ready 1),
            (w\<lparr>ticks := ticks w + m, attempts := attempts w + m\<rparr>, c))"
  using assms(2)
proof (induction m)
  case 0
  show ?case by (simp add: run_callers_Nil)
next
  case (Suc m)
  let ?w = "w\<lparr>ticks := ticks w + m, attempts := attempts w + m\<rparr>"
  let ?ts = "replicate m (Missed 1) @ replicate (N - m) (Ready 1)"
  from Suc have IH: "run_callers e r [0..<m] (replicate N (Ready 1), (w, c)) = (?ts, (?w, c))"
    by simp
  from Suc.prems have nm: "N - m = Suc (N - Suc m)" by simp
  have at: "?ts ! m = Ready 1" using Suc.prems by (simp add: nth_append)
  have ex: "\<not> id_token_expire c > clock e (ticks ?w)" using assms(1) Suc.prems by simp
  have upd: "?ts[m := Missed 1] = replicate (Suc m) (Missed 1) @ replicate (N - Suc m) (Ready 1)"
    by (simp add: list_update_append nm replicate_append_same)
  have len: "m < length ?ts" using Suc.prems by simp
  have "run_callers e r [0..<Suc m] (replicate N (Ready 1), (w, c)) =
          run_callers e r [m] (?ts, (?w, c))"
  proof -
    have "[0..<Suc m] = [0..<m] @ [m]" by simp
    then show ?thesis by (simp only: run_callers_append IH)
  qed
  also have "\<dots> = (?ts[m := Missed 1],
                   (?w\<lparr>ticks := Suc (ticks ?w), attempts := Suc (attempts ?w)\<rparr>, c))"
    using len at check_expired [OF ex, of r 1]
    by (simp add: run_callers_Cons run_callers_Nil del: replicate_Suc)
  finally have fin: "run_callers e r [0..<Suc m] (replicate N (Ready 1), (w, c)) =
      (?ts[m := Missed 1], (?w\<lparr>ticks := Suc (ticks ?w), attempts := Suc (attempts ?w)\<rparr>, c))" .
  show ?case unfolding fin upd by simp
qed

lemma all_refresh:
  assumes rv: "\<forall>k. ticks w \<le> k \<and> k < ticks w + 2 * N \<longrightarrow> clock e k < refresh_token_expire c"
    and acc: "\<forall>k. server e k (AuthRefresh (refresh_token c)) = Inr resp"
    and ok: "\<not> (400 \<le> status_code resp \<and> status_code resp < 600)"
    and tk: "json_field resp ''idToken'' = Inr tok"
    and "m \<le> N"
  shows "\<exists>w' c'. run_callers e None [0..<m] (replicate N (Missed 1), (w, c)) =
             (replicate m (Returned (Inr tok)) @ replicate (N - m) (Missed 1), (w', c'))
           \<and> posts w' = posts w @ replicate m (AuthRefresh (refresh_token c))
           \<and> ticks w' = ticks w + 2 * m
           \<and> refresh_token c' = refresh_token c
           \<and> refresh_token_expire c' = refresh_token_expire c"
  using assms(5)
proof (induction m)
  case 0
  show ?case by (simp add: run_callers_Nil)
next
  case (Suc m)
  let ?ts = "replicate m (Returned (Inr tok)) @ replicate (N - m) (Missed 1)"
  from Suc obtain w' c' where
    IH: "run_callers e None [0..<m] (replicate N (Missed 1), (w, c)) = (?ts, (w', c'))"
    and p: "posts w' = posts w @ replicate m (AuthRefresh (refresh_token c))"
    and t: "ticks w' = ticks w + 2 * m"
    and r: "refresh_token c' = refresh_token c" "refresh_token_expire c' = refresh_token_expire c"
    by auto
  from Suc.prems have nm: "N - m = Suc (N - Suc m)" by simp
  have at: "?ts ! m = Missed 1" using Suc.prems by (simp add: nth_append)
  have len: "m < length ?ts" using Suc.prems by simp
  have upd: "?ts[m := Returned (Inr tok)] =
               replicate (Suc m) (Returned (Inr tok)) @ replicate (N - Suc m) (Missed 1)"
    by (simp add: list_update_append nm replicate_append_same)
  have h1: "clock e (ticks w') < refresh_token_expire c'" using rv t r Suc.prems by simp
  have h2: "server e (length (posts w')) (AuthRefresh (refresh_token c')) = Inr resp"
    using acc r by simp
  let ?w2 = "w'\<lparr>ticks := Suc (Suc (ticks w')),
                posts := posts w' @ [AuthRefresh (refresh_token c')]\<rparr>"
  let ?c2 = "c'\<lparr>id_token := tok,
                id_token_expire := clock e (Suc (ticks w')) + timedelta_hours 23\<rparr>"
  have "run_callers e None [0..<Suc m] (replicate N (Missed 1), (w, c)) =
          run_callers e None [m] (?ts, (w', c'))"
  proof -
    have "[0..<Suc m] = [0..<m] @ [m]" by simp
    then show ?thesis by (simp only: run_callers_append IH)
  qed
  also have "\<dots> = (?ts[m := Returned (Inr tok)], (?w2, ?c2))"
    using len at refresh_accepted [OF h1 h2 ok tk, of 1]
    by (simp add: run_callers_Cons run_callers_Nil del: replicate_Suc)
  finally have fin: "run_callers e None [0..<Suc m] (replicate N (Missed 1), (w, c)) =
      (?ts[m := Returned (Inr tok)], (?w2, ?c2))" .
  have "posts ?w2 = posts w @ replicate (Suc m) (AuthRefresh (refresh_token c))"
    using p r by (simp add: replicate_append_same)
  moreover have "ticks ?w2 = ticks w + 2 * Suc m" using t by simp
  moreover have "refresh_token ?c2 = refresh_token c
                 \<and> refresh_token_expire ?c2 = refresh_token_expire c"
    using r by simp
  ultimately show ?case unfolding fin upd by blast
qed

lemma all_serial:
  assumes ex: "\<not> id_token_expire c > clock e (ticks w)"
    and rv: "clock e (Suc (ticks w)) < refresh_token_expire c"
    and acc: "\<forall>k. server e k (AuthRefresh (refresh_token c)) = Inr resp"
    and ok: "\<not> (400 \<le> status_code resp \<and> status_code resp < 600)"
    and tk: "json_field resp ''idToken'' = Inr tok"
    and fresh: "\<forall>k. ticks w + 3 \<le> k \<and> k < ticks w + 2 + N \<longrightarrow>
                  clock e k < clock e (ticks w + 2) + timedelta_hours 23"
    and "Suc m \<le> N"
  shows "\<exists>w' c'. run_callers e None (concat (map (\<lambda>i. [i, i]) [0..<Suc m]))
                    (replicate N (Ready 1), (w, c)) =
             (replicate (Suc m) (Returned (Inr tok)) @ replicate (N - Suc m) (Ready 1), (w', c'))
           \<and> posts w' = posts w @ [AuthRefresh (refresh_token c)]
           \<and> ticks w' = ticks w + 3 + m
           \<and> id_token c' = tok
           \<and> id_token_expire c' = clock e (ticks w + 2) + timedelta_hours 23"
  using assms(7)
proof (induction m)
  case 0
  let ?w1 = "w\<lparr>ticks := Suc (ticks w), attempts := Suc (attempts w)\<rparr>"
  let ?w2 = "?w1\<lparr>ticks := Suc (Suc (ticks ?w1)),
                posts := posts ?w1 @ [AuthRefresh (refresh_token c)]\<rparr>"
  let ?c2 = "c\<lparr>id_token := tok,
                id_token_expire := clock e (Suc (ticks ?w1)) + timedelta_hours 23\<rparr>"
  from 0 obtain N' where N: "N = Suc N'" by (cases N) auto
  have h1: "clock e (ticks ?w1) < refresh_token_expire c" using rv by simp
  have h2: "server e (length (posts ?w1)) (AuthRefresh (refresh_token c)) = Inr resp"
    using acc by simp
  have "run_callers e None [0, 0] (replicate N (Ready 1), (w, c)) =
          (Returned (Inr tok) # replicate N' (Ready 1), (?w2, ?c2))"
    using check_expired [OF ex, of None 1] refresh_accepted [OF h1 h2 ok tk, of 1]
    by (simp add: run_callers_Cons run_callers_Nil N)
  then show ?case by (simp add: N)
next
  case (Suc m)
  let ?ts = "replicate (Suc m) (Returned (Inr tok)) @ replicate (N - Suc m) (Ready 1)"
  let ?sch = "\<lambda>n. concat (map (\<lambda>i. [i, i]) [0..<n])"
  from Suc obtain w' c' where
    IH: "run_callers e None (?sch (Suc m)) (replicate N (Ready 1), (w, c)) = (?ts, (w', c'))"
    and p: "posts w' = posts w @ [AuthRefresh (refresh_token c)]"
    and t: "ticks w' = ticks w + 3 + m"
    and i: "id_token c' = tok"
       "id_token_expire c' = clock e (ticks w + 2) + timedelta_hours 23"
    by auto
  from Suc.prems have nm: "N - Suc m = Suc (N - Suc (Suc m))" by simp
  have at: "?ts ! Suc m = Ready 1"
    using Suc.prems by (simp add: nth_append del: replicate_Suc)
  have len: "Suc m < length ?ts" using Suc.prems by simp
  have upd: "?ts[Suc m := Returned (Inr tok)] =
               replicate (Suc (Suc m)) (Returned (Inr tok)) @ replicate (N - Suc (Suc m)) (Ready 1)"
    by (simp add: list_update_append nm replicate_append_same)
  have v: "id_token_expire c' > clock e (ticks w')"
    using fresh t i Suc.prems by simp
  let ?w2 = "w'\<lparr>ticks := Suc (ticks w'), attempts := Suc (attempts w')\<rparr>"
  have sch: "?sch (Suc (Suc m)) = ?sch (Suc m) @ [Suc m, Suc m]" by simp
  have "run_callers e None (?sch (Suc (Suc m))) (replicate N (Ready 1), (w, c)) =
          run_callers e None [Suc m, Suc m] (?ts, (w', c'))"
    by (simp only: sch run_callers_append IH)
  also have "\<dots> = (?ts[Suc m := Returned (Inr tok)], (?w2, c'))"
    using len at check_valid [OF v, of None 1] i
    by (simp add: run_callers_Cons run_callers_Nil del: replicate_Suc)
  finally have fin: "run_callers e None (?sch (Suc (Suc m))) (replicate N (Ready 1), (w, c)) =
      (?ts[Suc m := Returned (Inr tok)], (?w2, c'))" .
  have "posts ?w2 = posts w @ [AuthRefresh (refresh_token c)]" using p by simp
  moreover have "ticks ?w2 = ticks w + 3 + Suc m" using t by simp
  ultimately show ?case unfolding fin upd using i by blast
qed

text \<open>
  Claim C8, as amended. \<open>N\<close> threads call \<open>get_id_token\<close> on one client and run
  interleaved in any order. A single thread run to its end is the sequential
  \<open>get_id_token\<close>. A thread whose check reads the clock before the expiry of the
  cached token returns that token in this one step, whatever the other threads are
  doing. When the cached token is valid at every reading of the clock, then for every
  \<open>N\<close> and every schedule no request is sent and nothing is slept, the client is
  unchanged, and every thread that has run has returned the cached token. When the
  cached token is expired, the refresh token is valid and the server accepts the
  exchange, the number of exchanges depends on the schedule, for there is no lock and
  no single-flight section: when all threads check before the first of them refreshes,
  each of the \<open>N\<close> threads sends an exchange of its own; when the threads run one
  after another, the first sends the one exchange and the others return the token it
  has stored.
\<close>

theorem concurrent_get_id_token:
  "run_callers e r [0, 0, 0, 0, 0, 0] ([Ready 1], (w, c)) =
     ([Returned (fst (get_id_token e r (w, c)))], snd (get_id_token e r (w, c)))
   \<and> (id_token_expire c > clock e (ticks w) \<longrightarrow>
        caller_step e r (Ready n) (w, c) =
          (Returned (Inr (id_token c)),
           (w\<lparr>ticks := Suc (ticks w), attempts := Suc (attempts w)\<rparr>, c)))
   \<and> ((\<forall>k. ticks w \<le> k \<and> k < ticks w + length sched \<longrightarrow> id_token_expire c > clock e k) \<longrightarrow>
        (\<exists>ts' w'. run_callers e r sched (replicate N (Ready 1), (w, c)) = (ts', (w', c))
           \<and> posts w' = posts w \<and> sleeps w' = sleeps w \<and> length ts' = N
           \<and> (\<forall>i<N. ts' ! i =
                 (if i \<in> set sched then Returned (Inr (id_token c)) else Ready 1))))
   \<and> ((\<forall>k. ticks w \<le> k \<and> k < ticks w + 3 * N \<longrightarrow>
            \<not> id_token_expire c > clock e k
          \<and> clock e k < refresh_token_expire c
          \<and> (\<forall>j. ticks w \<le> j \<and> j < ticks w + 3 * N \<longrightarrow>
                 clock e k < clock e j + timedelta_hours 23))
       \<and> (\<forall>k. server e k (AuthRefresh (refresh_token c)) = Inr resp)
       \<and> \<not> (400 \<le> status_code resp \<and> status_code resp < 600)
       \<and> json_field resp ''idToken'' = Inr tok \<longrightarrow>
        (\<exists>w' c'. run_callers e None ([0..<N] @ [0..<N]) (replicate N (Ready 1), (w, c)) =
                    (replicate N (Returned (Inr tok)), (w', c'))
           \<and> posts w' = posts w @ replicate N (AuthRefresh (refresh_token c)))
      \<and> (1 \<le> N \<longrightarrow>
           (\<exists>w' c'. run_callers e None (concat (map (\<lambda>i. [i, i]) [0..<N]))
                       (replicate N (Ready 1), (w, c)) =
                       (replicate N (Returned (Inr tok)), (w', c'))
              \<and> posts w' = posts w @ [AuthRefresh (refresh_token c)])))"
proof (intro conjI impI)
  show "run_callers e r [0, 0, 0, 0, 0, 0] ([Ready 1], (w, c)) =
     ([Returned (fst (get_id_token e r (w, c)))], snd (get_id_token e r (w, c)))"
    by (rule single_caller)
next
  assume "id_token_expire c > clock e (ticks w)"
  then show "caller_step e r (Ready n) (w, c) =
          (Returned (Inr (id_token c)),
           (w\<lparr>ticks := Suc (ticks w), attempts := Suc (attempts w)\<rparr>, c))"
    by (rule check_valid)
next
  assume v: "\<forall>k. ticks w \<le> k \<and> k < ticks w + length sched \<longrightarrow> id_token_expire c > clock e k"
  have "\<forall>i<length (replicate N (Ready 1)).
          replicate N (Ready 1) ! i = Ready 1
          \<or> replicate N (Ready 1) ! i = Returned (Inr (id_token c))"
    by simp
  from run_callers_valid [OF v this, of r] obtain ts' w' where
    run: "run_callers e r sched (replicate N (Ready 1), (w, c)) = (ts', (w', c))"
    and keep: "posts w' = posts w" "sleeps w' = sleeps w" "length ts' = N"
    and each: "\<forall>i<N. ts' ! i =
                 (if i \<in> set sched then Returned (Inr (id_token c))
                  else replicate N (Ready 1) ! i)"
    by auto
  from each have "\<forall>i<N. ts' ! i =
                 (if i \<in> set sched then Returned (Inr (id_token c)) else Ready 1)"
    by simp
  with run keep
  show "\<exists>ts' w'. run_callers e r sched (replicate N (Ready 1), (w, c)) = (ts', (w', c))
           \<and> posts w' = posts w \<and> sleeps w' = sleeps w \<and> length ts' = N
           \<and> (\<forall>i<N. ts' ! i =
                 (if i \<in> set sched then Returned (Inr (id_token c)) else Ready 1))"
    by blast
next
  assume h: "(\<forall>k. ticks w \<le> k \<and> k < ticks w + 3 * N \<longrightarrow>
            \<not> id_token_expire c > clock e k
          \<and> clock e k < refresh_token_expire c
          \<and> (\<forall>j. ticks w \<le> j \<and> j < ticks w + 3 * N \<longrightarrow>
                 clock e k < clock e j + timedelta_hours 23))
       \<and> (\<forall>k. server e k (AuthRefresh (refresh_token c)) = Inr resp)
       \<and> \<not> (400 \<le> status_code resp \<and> status_code resp < 600)
       \<and> json_field resp ''idToken'' = Inr tok"
  then have acc: "\<forall>k. server e k (AuthRefresh (refresh_token c)) = Inr resp"
    and ok: "\<not> (400 \<le> status_code resp \<and> status_code resp < 600)"
    and tk: "json_field resp ''idToken'' = Inr tok"
    by simp_all
  let ?w1 = "w\<lparr>ticks := ticks w + N, attempts := attempts w + N\<rparr>"
  have ex: "\<forall>k. ticks w \<le> k \<and> k < ticks w + N \<longrightarrow> \<not> id_token_expire c > clock e k"
    using h by simp
  have rv: "\<forall>k. ticks ?w1 \<le> k \<and> k < ticks ?w1 + 2 * N \<longrightarrow> clock e k < refresh_token_expire c"
    using h by simp
  have one: "run_callers e None [0..<N] (replicate N (Ready 1), (w, c)) =
               (replicate N (Missed 1), (?w1, c))"
    using all_check [OF ex, of N None] by simp
  from all_refresh [OF rv acc ok tk, of N] obtain w' c' where
    two: "run_callers e None [0..<N] (replicate N (Missed 1), (?w1, c)) =
            (replicate N (Returned (Inr tok)), (w', c'))"
    and p: "posts w' = posts ?w1 @ replicate N (AuthRefresh (refresh_token c))"
    by auto
  have "run_callers e None ([0..<N] @ [0..<N]) (replicate N (Ready 1), (w, c)) =
          (replicate N (Returned (Inr tok)), (w', c'))"
    by (simp only: run_callers_append one two)
  with p show "\<exists>w' c'. run_callers e None ([0..<N] @ [0..<N]) (replicate N (Ready 1), (w, c)) =
                    (replicate N (Returned (Inr tok)), (w', c'))
           \<and> posts w' = posts w @ replicate N (AuthRefresh (refresh_token c))"
    by auto
next
  assume h: "(\<forall>k. ticks w \<le> k \<and> k < ticks w + 3 * N \<longrightarrow>
            \<not> id_token_expire c > clock e k
          \<and> clock e k < refresh_token_expire c
          \<and> (\<forall>j. ticks w \<le> j \<and> j < ticks w + 3 * N \<longrightarrow>
                 clock e k < clock e j + timedelta_hours 23))
       \<and> (\<forall>k. server e k (AuthRefresh (refresh_token c)) = Inr resp)
       \<and> \<not> (400 \<le> status_code resp \<and> status_code resp < 600)
       \<and> json_field resp ''idToken'' = Inr tok"
    and "1 \<le> N"
  then obtain m where N: "N = Suc m" by (cases N) auto
  from h have acc: "\<forall>k. server e k (AuthRefresh (refresh_token c)) = Inr resp"
    and ok: "\<not> (400 \<le> status_code resp \<and> status_code resp < 600)"
    and tk: "json_field resp ''idToken'' = Inr tok"
    by simp_all
  have ex: "\<not> id_token_expire c > clock e (ticks w)" using h N by simp
  have rv: "clock e (Suc (ticks w)) < refresh_token_expire c" using h N by simp
  have fresh: "\<forall>k. ticks w + 3 \<le> k \<and> k < ticks w + 2 + N \<longrightarrow>
                  clock e k < clock e (ticks w + 2) + timedelta_hours 23"
    using h N by simp
  from all_serial [OF ex rv acc ok tk fresh, of m] N
  show "\<exists>w' c'. run_callers e None (concat (map (\<lambda>i. [i, i]) [0..<N]))
                       (replicate N (Ready 1), (w, c)) =
                       (replicate N (Returned (Inr tok)), (w', c'))
              \<and> posts w' = posts w @ [AuthRefresh (refresh_token c)]"
    by auto
qed

theorem concurrent_get_id_token_witness:
  "clock accepting_env (ticks example_io)
     < id_token_expire (example_client\<lparr>id_token := ''I'', id_token_expire := 82803000000\<rparr>)
   \<and> caller_step accepting_env None (Ready 1)
        (example_io, example_client\<lparr>id_token := ''I'', id_token_expire := 82803000000\<rparr>) =
       (Returned (Inr ''I''),
        (example_io\<lparr>ticks := 1, attempts := 1\<rparr>,
         example_client\<lparr>id_token := ''I'', id_token_expire := 82803000000\<rparr>))
   \<and> list_all (\<lambda>k. clock accepting_env k < 82803000000) [0..<4]
   \<and> (\<exists>w'. run_callers accepting_env None [2, 0, 2, 1]
               ([Ready 1, Ready 1, Ready 1],
                (example_io, example_client\<lparr>id_token := ''I'', id_token_expire := 82803000000\<rparr>)) =
              ([Returned (Inr ''I''), Returned (Inr ''I''), Returned (Inr ''I'')],
               (w', example_client\<lparr>id_token := ''I'', id_token_expire := 82803000000\<rparr>))
          \<and> posts w' = [] \<and> sleeps w' = [])
   \<and> list_all (\<lambda>k. 0 \<le> clock accepting_env k \<and> clock accepting_env k < 518402000000) [0..<9]
   \<and> list_all (\<lambda>k. list_all (\<lambda>j. clock accepting_env k
                                  < clock accepting_env j + timedelta_hours 23) [0..<9]) [0..<9]
   \<and> accepting_server 0 (AuthRefresh ''R'') =
       Inr \<lparr>status_code = 200, json_body = Some [(''idToken'', ''I'')]\<rparr>
   \<and> (\<exists>w' c'. run_callers accepting_env None [0, 1, 2, 0, 1, 2]
                  ([Ready 1, Ready 1, Ready 1],
                   (example_io, example_client\<lparr>refresh_token := ''R'',
                                                 refresh_token_expire := 518402000000\<rparr>)) =
                 ([Returned (Inr ''I''), Returned (Inr ''I''), Returned (Inr ''I'')], (w', c'))
          \<and> posts w' = [AuthRefresh ''R'', AuthRefresh ''R'', AuthRefresh ''R''])
   \<and> (\<exists>w' c'. run_callers accepting_env None [0, 0, 1, 1, 2, 2]
                  ([Ready 1, Ready 1, Ready 1],
                   (example_io, example_client\<lparr>refresh_token := ''R'',
                                                 refresh_token_expire := 518402000000\<rparr>)) =
                 ([Returned (Inr ''I''), Returned (Inr ''I''), Returned (Inr ''I'')], (w', c'))
          \<and> posts w' = [AuthRefresh ''R''])"
proof -
  let ?c = "example_client\<lparr>id_token := ''I'', id_token_expire := 82803000000\<rparr>"
  let ?d = "example_client\<lparr>refresh_token := ''R'', refresh_token_expire := 518402000000\<rparr>"
  let ?resp = "\<lparr>status_code = 200, json_body = Some [(''idToken'', ''I'')]\<rparr>"
  have a1: "clock accepting_env (ticks example_io) < id_token_expire ?c"
    by (simp add: accepting_env_def example_clock_def example_io_def)
  from concurrent_get_id_token [where e = accepting_env and r = None and w = example_io
      and c = ?c and n = 1] a1
  have a0: "caller_step accepting_env None (Ready 1) (example_io, ?c) =
       (Returned (Inr ''I''), (example_io\<lparr>ticks := 1, attempts := 1\<rparr>, ?c))"
    by (simp add: example_io_def)
  have a2: "list_all (\<lambda>k. clock accepting_env k < 82803000000) [0..<4]"
    by (simp add: accepting_env_def example_clock_def upt_rec)
  have v: "\<forall>k. ticks example_io \<le> k \<and> k < ticks example_io + length [2, 0, 2, 1::nat] \<longrightarrow>
             id_token_expire ?c > clock accepting_env k"
    by (simp add: accepting_env_def example_clock_def example_io_def)
  have three: "replicate 3 x = [x, x, x]" for x :: caller
    by (simp add: numeral_3_eq_3)
  have upt3: "[0..<3] = [0, 1, 2::nat]" by (simp add: upt_rec)
  have sch3: "concat (map (\<lambda>i. [i, i]) [0..<3]) = [0, 0, 1, 1, 2, 2::nat]"
    by (simp add: upt_rec)
  from concurrent_get_id_token [where e = accepting_env and r = None and w = example_io
      and c = ?c and sched = "[2, 0, 2, 1]" and N = 3] v
  obtain ts' w' where
    run: "run_callers accepting_env None [2, 0, 2, 1] (replicate 3 (Ready 1), (example_io, ?c)) =
            (ts', (w', ?c))"
    and keep: "posts w' = posts example_io" "sleeps w' = sleeps example_io" "length ts' = 3"
    and each: "\<forall>i<3. ts' ! i = (if i \<in> set [2, 0, 2, 1::nat]
                                  then Returned (Inr (id_token ?c)) else Ready 1)"
    by blast
  from each have "ts' ! 0 = Returned (Inr ''I'')" "ts' ! 1 = Returned (Inr ''I'')"
    "ts' ! 2 = Returned (Inr ''I'')"
    by simp_all
  with keep(3) have "ts' = [Returned (Inr ''I''), Returned (Inr ''I''), Returned (Inr ''I'')]"
    by (simp add: list_eq_iff_nth_eq numeral_3_eq_3 numeral_2_eq_2 less_Suc_eq)
  with run keep have a3: "\<exists>w'. run_callers accepting_env None [2, 0, 2, 1]
               ([Ready 1, Ready 1, Ready 1], (example_io, ?c)) =
              ([Returned (Inr ''I''), Returned (Inr ''I''), Returned (Inr ''I'')], (w', ?c))
          \<and> posts w' = [] \<and> sleeps w' = []"
    by (simp add: three example_io_def)
  have b1: "list_all (\<lambda>k. 0 \<le> clock accepting_env k \<and> clock accepting_env k < 518402000000)
              [0..<9]"
    by (simp add: accepting_env_def example_clock_def upt_rec)
  have b2: "list_all (\<lambda>k. list_all (\<lambda>j. clock accepting_env k
                                  < clock accepting_env j + timedelta_hours 23) [0..<9]) [0..<9]"
    by (simp add: accepting_env_def example_clock_def timedelta_hours_def upt_rec)
  have b3: "accepting_server 0 (AuthRefresh ''R'') = Inr ?resp"
    by (simp add: accepting_server_def)
  have h: "(\<forall>k. ticks example_io \<le> k \<and> k < ticks example_io + 3 * 3 \<longrightarrow>
            \<not> id_token_expire ?d > clock accepting_env k
          \<and> clock accepting_env k < refresh_token_expire ?d
          \<and> (\<forall>j. ticks example_io \<le> j \<and> j < ticks example_io + 3 * 3 \<longrightarrow>
                 clock accepting_env k < clock accepting_env j + timedelta_hours 23))
       \<and> (\<forall>k. server accepting_env k (AuthRefresh (refresh_token ?d)) = Inr ?resp)
       \<and> \<not> (400 \<le> status_code ?resp \<and> status_code ?resp < 600)
       \<and> json_field ?resp ''idToken'' = Inr ''I''"
    by (simp add: accepting_env_def example_clock_def example_io_def example_client_def
        accepting_server_def timedelta_hours_def json_field_def)
  from concurrent_get_id_token [where e = accepting_env and w = example_io
      and c = ?d and N = 3 and resp = ?resp and tok = "''I''"] h
  have "(\<exists>w' c'. run_callers accepting_env None ([0..<3] @ [0..<3])
                    (replicate 3 (Ready 1), (example_io, ?d)) =
                    (replicate 3 (Returned (Inr ''I'')), (w', c'))
           \<and> posts w' = posts example_io @ replicate 3 (AuthRefresh (refresh_token ?d)))
      \<and> (\<exists>w' c'. run_callers accepting_env None (concat (map (\<lambda>i. [i, i]) [0..<3]))
                       (replicate 3 (Ready 1), (example_io, ?d)) =
                       (replicate 3 (Returned (Inr ''I'')), (w', c'))
              \<and> posts w' = posts example_io @ [AuthRefresh (refresh_token ?d)])"
    by simp
  then have b4: "(\<exists>w' c'. run_callers accepting_env None [0, 1, 2, 0, 1, 2]
                  ([Ready 1, Ready 1, Ready 1], (example_io, ?d)) =
                 ([Returned (Inr ''I''), Returned (Inr ''I''), Returned (Inr ''I'')], (w', c'))
          \<and> posts w' = [AuthRefresh ''R'', AuthRefresh ''R'', AuthRefresh ''R''])
      \<and> (\<exists>w' c'. run_callers accepting_env None [0, 0, 1, 1, 2, 2]
                  ([Ready 1, Ready 1, Ready 1], (example_io, ?d)) =
                 ([Returned (Inr ''I''), Returned (Inr ''I''), Returned (Inr ''I'')], (w', c'))
          \<and> posts w' = [AuthRefresh ''R''])"
    by (simp only: three upt3 sch3 append.simps) (simp add: example_io_def numeral_3_eq_3)
  from a1 a0 a2 a3 b1 b2 b3 b4 show ?thesis by blast
qed

text \<open>
  The claim as it stands fails when the cached token is expired: two threads that both
  check before either refreshes send the exchange twice. Run one after the other, the
  same two threads send it once.
\<close>

theorem concurrent_get_id_token_counterexample:
  "\<not> id_token_expire example_client > clock accepting_env (ticks example_io)
   \<and> posts (fst (snd (run_callers accepting_env None [0, 1, 0, 1]
                        ([Ready 1, Ready 1], (example_io, example_client))))) =
       [AuthUser ''a@b'' ''pw'', AuthRefresh ''R'', AuthRefresh ''R'']
   \<and> posts (fst (snd (run_callers accepting_env None [0, 0, 1, 1]
                        ([Ready 1, Ready 1], (example_io, example_client))))) =
       [AuthUser ''a@b'' ''pw'', AuthRefresh ''R'']"
  by code_simp

subsection \<open>Helper facts about the date loop\<close>

lemma datetime_le_same:
  "utcoffset s = utcoffset e \<Longrightarrow> datetime_le s e = Inr (wall s \<le> wall e)"
  by (cases "utcoffset e") (auto simp: datetime_le_def)



lemma loop_overflow:
  "utcoffset s = utcoffset e \<Longrightarrow> wall s \<le> wall e \<Longrightarrow> add_days s step = Inl x \<Longrightarrow>
     date_range_loop step s e = Some ([s], Some x)"
  by (simp add: date_range_loop.simps [of step s e] datetime_le_same)

lemma loop_next:
  "utcoffset s = utcoffset e \<Longrightarrow> wall s \<le> wall e \<Longrightarrow> add_days s step = Inr nxt \<Longrightarrow>
     date_range_loop step s e =
       Option.bind (date_range_loop step nxt e) (\<lambda>(ys, r). Some (s # ys, r))"
  by (simp add: date_range_loop.simps [of step s e] datetime_le_same)

lemma add_days_cases:
  "add_days s step = Inl OverflowError \<and>
      (\<bar>step\<bar> > 999999999 \<or> \<not> (0 < ordinal s + step \<and> ordinal s + step \<le> MAXORDINAL))
   \<or> add_days s step = Inr (s\<lparr>ordinal := ordinal s + step\<rparr>) \<and>
      0 < ordinal s + step \<and> ordinal s + step \<le> MAXORDINAL"
  by (simp add: add_days_def)

lemma div_step_next:
  fixes a b :: int
  shows "b \<noteq> 0 \<Longrightarrow> (a + b) div b = a div b + 1"
  by (metis div_add_self2)






lemma loop_backward:
  assumes "step < 0" "utcoffset s = utcoffset e" "valid_datetime s" "valid_datetime e"
    "wall s \<le> wall e"
  shows "\<exists>ys. date_range_loop step s e = Some (ys, Some OverflowError)
           \<and> int (length ys) = (ordinal s - 1) div (- step) + 1"
  using assms
proof (induction "nat (ordinal s)" arbitrary: s rule: less_induct)
  case less
  from add_days_cases [of s step] show ?case
  proof
    assume ov: "add_days s step = Inl OverflowError \<and>
      (\<bar>step\<bar> > 999999999 \<or> \<not> (0 < ordinal s + step \<and> ordinal s + step \<le> MAXORDINAL))"
    then have "ordinal s - 1 < - step"
      using less.prems by (auto simp: valid_datetime_def MAXORDINAL_def)
    moreover have "0 \<le> ordinal s - 1" using less.prems by (simp add: valid_datetime_def)
    ultimately have "(ordinal s - 1) div (- step) = 0" by simp
    with ov less.prems show ?thesis by (simp add: loop_overflow)
  next
    assume ok: "add_days s step = Inr (s\<lparr>ordinal := ordinal s + step\<rparr>) \<and>
        0 < ordinal s + step \<and> ordinal s + step \<le> MAXORDINAL"
    let ?n = "s\<lparr>ordinal := ordinal s + step\<rparr>"
    have v: "valid_datetime ?n" using ok less.prems by (simp add: valid_datetime_def)
    have m: "nat (ordinal ?n) < nat (ordinal s)" using ok less.prems by simp
    have o: "utcoffset ?n = utcoffset e" using less.prems by simp
    have w: "wall ?n \<le> wall e" using less.prems by (simp add: wall_def)
    from less.hyps [OF m less.prems(1) o v less.prems(4) w]
    obtain ys where rec: "date_range_loop step ?n e = Some (ys, Some OverflowError)"
      and len: "int (length ys) = (ordinal ?n - 1) div (- step) + 1"
      by blast
    have "ordinal s - 1 = (ordinal ?n - 1) + (- step)" by simp
    then have "(ordinal s - 1) div (- step) = (ordinal ?n - 1) div (- step) + 1"
      using less.prems(1) by (simp only: div_step_next)
    with len have cnt: "(ordinal s - 1) div (- step) + 1 = 1 + int (length ys)" by simp
    from loop_next [OF less.prems(2) less.prems(5)] ok rec
    have "date_range_loop step s e = Some (s # ys, Some OverflowError)" by simp
    with cnt show ?thesis by simp
  qed
qed



subsection \<open>Helper facts about parsing\<close>




































subsection \<open>Type check of the range arguments\<close>

text \<open>
  Claim C9, as amended. When the type of \<open>start_date\<close> is neither exactly \<open>str\<close> nor
  exactly \<open>datetime\<close>, \<open>date_range\<close> raises \<open>TypeError\<close> before it yields any date.
  When \<open>start_date\<close> is a \<open>datetime\<close> or a string that parses, and the type of
  \<open>end_date\<close> is neither exactly \<open>str\<close> nor exactly \<open>datetime\<close>, it raises
  \<open>TypeError\<close> before it yields any date. An instance of a proper subclass of
  \<open>datetime\<close> or of \<open>str\<close> is rejected like a value of any other type.
\<close>

theorem date_range_type_check:
  "(\<not> exact_str_or_datetime a \<longrightarrow>
      date_range a b step =
        Some ([], Some (TypeError ''start_date must be a datetime object or a string.'')))
   \<and> (to_datetime ''start_date'' a = Inr s \<and> \<not> exact_str_or_datetime b \<longrightarrow>
      date_range a b step =
        Some ([], Some (TypeError ''end_date must be a datetime object or a string.'')))"
  by (cases a; cases b) (simp_all add: date_range_def to_datetime_def)

theorem date_range_type_check_witness:
  "\<not> exact_str_or_datetime (DatetimeSubclass (midnight 2020 2 27))
   \<and> date_range (DatetimeSubclass (midnight 2020 2 27)) (Str ''20200302'') 1 =
        Some ([], Some (TypeError ''start_date must be a datetime object or a string.''))
   \<and> to_datetime ''start_date'' (Str ''20200227'') = Inr (midnight 2020 2 27)
   \<and> \<not> exact_str_or_datetime (DatetimeSubclass (midnight 2020 3 2))
   \<and> date_range (Str ''20200227'') (DatetimeSubclass (midnight 2020 3 2)) 1 =
        Some ([], Some (TypeError ''end_date must be a datetime object or a string.''))"
proof -
  have p: "to_datetime ''start_date'' (Str ''20200227'') = Inr (midnight 2020 2 27)"
    by code_simp
  from date_range_type_check [of "DatetimeSubclass (midnight 2020 2 27)" "Str ''20200302''" 1
         "midnight 2020 2 27"]
       date_range_type_check [of "Str ''20200227''" "DatetimeSubclass (midnight 2020 3 2)" 1
         "midnight 2020 2 27"] p
  show ?thesis by simp
qed

text \<open>
  The claim as it stands does not hold for every \<open>end_date\<close> of another type: the
  arguments are checked in turn, so a \<open>start_date\<close> string that does not parse raises
  \<open>ValueError\<close> before the type of \<open>end_date\<close> is looked at.
\<close>

theorem date_range_type_check_counterexample:
  "\<not> exact_str_or_datetime (DatetimeSubclass (midnight 2020 3 2))
   \<and> date_range (Str ''2020-02-30'') (DatetimeSubclass (midnight 2020 3 2)) 1 =
       Some ([], Some (ValueError ''day is out of range for month''))"
  by code_simp

subsection \<open>Termination of the date loop\<close>





subsection \<open>Representations of the range ends\<close>






subsection \<open>Failure of a range fetch\<close>

lemma as_completed_loop_fail:
  "(\<forall>g \<in> set before. \<not> isl (fetch (snd g))) \<Longrightarrow> fetch (snd f) = Inl x \<Longrightarrow>
     as_completed_loop fetch (before @ f # rest) finished buff =
       (Inl x, finished @ before @ [f], rest)"
proof (induction before arbitrary: finished buff)
  case Nil
  then show ?case by simp
next
  case (Cons g before)
  from Cons.prems obtain df where "fetch (snd g) = Inr df"
    by (cases "fetch (snd g)") auto
  with Cons show ?case by simp
qed

text \<open>
  Claim C6. Let the access token be loaded and let the futures finish in any order
  (\<open>schedule\<close> permutes the submitted futures). If the fetch of at least one date
  fails, \<open>Client.get_price_range\<close> returns no data frame: it raises the exception of
  the future that is the first to fail in the order of completion, and when it raises
  every submitted future has finished.
\<close>

theorem range_fetch_failure:
  assumes "get_id_token e None s = (Inr tok, s1)"
    and "distinct (schedule (enumerate 0 (map strftime_Ymd dates)))"
    and "set (schedule (enumerate 0 (map strftime_Ymd dates))) =
           set (enumerate 0 (map strftime_Ymd dates))"
    and "\<exists>d \<in> set dates. isl (fetch (strftime_Ymd d))"
  shows "\<exists>before f rest x.
           schedule (enumerate 0 (map strftime_Ymd dates)) = before @ f # rest
           \<and> (\<forall>g \<in> set before. \<not> isl (fetch (snd g)))
           \<and> fetch (snd f) = Inl x
           \<and> get_price_range e fetch schedule sort_values dates s =
               (Inl x, schedule (enumerate 0 (map strftime_Ymd dates)), s1)"
proof -
  let ?fs = "enumerate 0 (map strftime_Ymd dates)"
  from assms(4) obtain d where d: "d \<in> set dates" "isl (fetch (strftime_Ymd d))" by blast
  from d(1) obtain i where "i < length dates" "dates ! i = d"
    by (auto simp: in_set_conv_nth)
  then have "(i, strftime_Ymd d) \<in> set ?fs"
    by (auto simp: in_set_enumerate_eq)
  with assms(3) d(2) have "\<exists>g \<in> set (schedule ?fs). isl (fetch (snd g))"
    by force
  from split_list_first_prop [OF this] obtain before f rest where
    sp: "schedule ?fs = before @ f # rest" and f: "isl (fetch (snd f))"
    and before: "\<forall>g \<in> set before. \<not> isl (fetch (snd g))"
    by blast
  from f obtain x where x: "fetch (snd f) = Inl x" by (cases "fetch (snd f)") auto
  from as_completed_loop_fail [OF before x, of rest "[]" "[]"] sp
  have "as_completed_loop fetch (schedule ?fs) [] [] = (Inl x, before @ [f], rest)" by simp
  with assms(1) sp
  have "get_price_range e fetch schedule sort_values dates s = (Inl x, schedule ?fs, s1)"
    by (simp add: get_price_range_def shutdown_wait_def)
  with sp before x show ?thesis by blast
qed

lemma example_range_run:
  "get_price_range accepting_env example_fetch rev id example_dates
       (example_io, example_client) =
     (Inl (HTTPError 500),
      [(4, ''20200302''), (3, ''20200301''), (2, ''20200229''), (1, ''20200228''),
       (0, ''20200227'')],
      (\<lparr>ticks = 4, posts = [AuthUser ''a@b'' ''pw'', AuthRefresh ''R''],
          sleeps = [], attempts = 1\<rparr>,
       \<lparr>mail_address = ''a@b'', password = ''pw'', refresh_token = ''R'',
          refresh_token_expire = 518402000000, id_token = ''I'',
          id_token_expire = 82803000000\<rparr>))"
  by code_simp

theorem range_fetch_failure_witness:
  "get_id_token accepting_env None (example_io, example_client) =
     (Inr ''I'',
      (\<lparr>ticks = 4, posts = [AuthUser ''a@b'' ''pw'', AuthRefresh ''R''],
          sleeps = [], attempts = 1\<rparr>,
       \<lparr>mail_address = ''a@b'', password = ''pw'', refresh_token = ''R'',
          refresh_token_expire = 518402000000, id_token = ''I'',
          id_token_expire = 82803000000\<rparr>))
   \<and> distinct (rev (enumerate 0 (map strftime_Ymd example_dates)))
   \<and> set (rev (enumerate 0 (map strftime_Ymd example_dates))) =
       set (enumerate 0 (map strftime_Ymd example_dates))
   \<and> (\<exists>d \<in> set example_dates. isl (example_fetch (strftime_Ymd d)))
   \<and> fst (get_price_range accepting_env example_fetch rev id example_dates
            (example_io, example_client)) = Inl (HTTPError 500)
   \<and> fst (snd (get_price_range accepting_env example_fetch rev id example_dates
            (example_io, example_client))) =
       rev (enumerate 0 (map strftime_Ymd example_dates))"
proof -
  have h2: "distinct (rev (enumerate 0 (map strftime_Ymd example_dates)))"
    by simp
  have h3: "set (rev (enumerate 0 (map strftime_Ymd example_dates))) =
       set (enumerate 0 (map strftime_Ymd example_dates))" by simp
  have k: "strftime_Ymd (midnight 2020 2 29) = ''20200229''" by code_simp
  have h4: "\<exists>d \<in> set example_dates. isl (example_fetch (strftime_Ymd d))"
    by (rule bexI [of _ "midnight 2020 2 29"])
       (simp_all add: example_dates_def example_fetch_def k)
  from range_fetch_failure [where schedule = rev and dates = example_dates
         and fetch = example_fetch and sort_values = id, OF accepting_run h2 h3 h4]
    accepting_run h2 h3 h4 example_range_run
  show ?thesis by auto
qed

end
